theory Spec2Isabelle
  imports Main "HOL-Library.AList"
begin

section \<open>The REST dispatch facade of Orthanc (RestApi.cpp)\<close>

text \<open>
  The development embeds \<^verbatim>\<open>OrthancFramework/Sources/RestApi/RestApi.cpp\<close>: the two
  visitors of the anonymous namespace (\<^verbatim>\<open>HttpHandlerVisitor\<close>, \<^verbatim>\<open>OpenApiVisitor\<close>),
  \<^verbatim>\<open>AddMethod\<close>, \<^verbatim>\<open>MethodsToString\<close>, \<^verbatim>\<open>RestApi::Handle\<close> and
  \<^verbatim>\<open>RestApi::GenerateOpenApiDocumentation\<close>.
\<close>

subsection \<open>Data\<close>

text \<open>
  The enumeration \<^verbatim>\<open>HttpMethod\<close>: the four members the file switches over.
\<close>

datatype HttpMethod = HttpMethod_Get | HttpMethod_Post | HttpMethod_Delete | HttpMethod_Put

text \<open>
  \<^verbatim>\<open>RequestOrigin\<close> and \<^verbatim>\<open>ErrorCode\<close> are declared outside the file. The file names
  one member of each; the others are kept as numbered members.
\<close>

datatype RequestOrigin = RequestOrigin_Documentation | RequestOrigin_Other nat

datatype ErrorCode = ErrorCode_InternalError | ErrorCode_Other nat

text \<open>
  The two exception classes the file names: \<^verbatim>\<open>OrthancException\<close>, which the file throws
  itself, and \<^verbatim>\<open>boost::bad_lexical_cast\<close>. Handlers are taken to raise these and no others.
  An exception of another class is outside the model: no clause of the file catches it, so
  that it would leave the visit and the traversal that runs it. What is proved of a traversal
  is therefore stated for the outcome of the traversal, ended or raised, and never promises
  that a traversal ends.
\<close>

datatype Exception = OrthancException ErrorCode | bad_lexical_cast

text \<open>
  \<^verbatim>\<open>UriComponents\<close> is a vector of strings; \<^verbatim>\<open>HttpToolbox::Arguments\<close> is a
  \<^verbatim>\<open>std::map\<close> from strings to strings, here an association list that is written
  through \<^const>\<open>AList.update\<close>; \<^verbatim>\<open>HttpToolbox::GetArguments\<close> is a vector of pairs.
\<close>

type_synonym UriComponents = "string list"
type_synonym Arguments = "(string \<times> string) list"
type_synonym GetArguments = "(string \<times> string) list"

text \<open>
  A \<^verbatim>\<open>Json::Value\<close>. An object is an association list read through \<^const>\<open>map_of\<close>
  and written through \<^const>\<open>AList.update\<close>, so that a key occurs once.
\<close>

datatype Json = JNull | JString string | JArray "Json list" | JObject "(string \<times> Json) list"

subsection \<open>The Allow header\<close>

definition AddMethod :: "string \<Rightarrow> string \<Rightarrow> string" where
  "AddMethod target method =
     (if length target > 0 then target @ '','' @ method else method)"

definition MethodsToString :: "HttpMethod set \<Rightarrow> string" where
  "MethodsToString methods =
     (let s = [];
          s = (if HttpMethod_Get \<in> methods then AddMethod s ''GET'' else s);
          s = (if HttpMethod_Post \<in> methods then AddMethod s ''POST'' else s);
          s = (if HttpMethod_Put \<in> methods then AddMethod s ''PUT'' else s);
          s = (if HttpMethod_Delete \<in> methods then AddMethod s ''DELETE'' else s)
      in s)"

text \<open>
  The header as the specification words it: the names of the accepted methods, taken in the
  order GET, POST, PUT, DELETE, with one comma between two neighbours.
\<close>

fun method_name :: "HttpMethod \<Rightarrow> string" where
  "method_name HttpMethod_Get = ''GET''"
| "method_name HttpMethod_Post = ''POST''"
| "method_name HttpMethod_Put = ''PUT''"
| "method_name HttpMethod_Delete = ''DELETE''"

fun comma_separated :: "string list \<Rightarrow> string" where
  "comma_separated [] = []"
| "comma_separated [x] = x"
| "comma_separated (x # y # ys) = x @ '','' @ comma_separated (y # ys)"

definition canonical_order :: "HttpMethod list" where
  "canonical_order = [HttpMethod_Get, HttpMethod_Post, HttpMethod_Put, HttpMethod_Delete]"

definition allow_header_spec :: "HttpMethod set \<Rightarrow> string" where
  "allow_header_spec methods =
     comma_separated (map method_name (filter (\<lambda>m. m \<in> methods) canonical_order))"

subsection \<open>What the file takes from elsewhere\<close>

text \<open>
  The functions and the build setting that \<^verbatim>\<open>RestApi.cpp\<close> uses and that are defined
  outside it are parameters of the translation: the preprocessor symbol
  \<^verbatim>\<open>ORTHANC_ENABLE_PUGIXML\<close>, \<^verbatim>\<open>HttpToolbox::CompileGetArguments\<close>,
  \<^verbatim>\<open>Toolbox::FlattenUri\<close> and \<^verbatim>\<open>RestApiCallDocumentation::FormatOpenApi\<close>. The last
  one answers \<^verbatim>\<open>false\<close> (\<open>Inr None\<close>), answers \<^verbatim>\<open>true\<close> with the fragment it has
  written (\<open>Inr (Some v)\<close>), or raises. The type \<open>'d\<close> is the documentation record of
  a call.

  Single-precision arithmetic is a parameter as well: \<open>RoundedCoverage ext a b\<close> is the
  value of \<^verbatim>\<open>iround(100.0f * static_cast<float>(a) / static_cast<float>(b))\<close>, converted to
  \<^verbatim>\<open>unsigned int\<close>, for the two integers \<open>a\<close> and \<open>b\<close> that the source converts. It need
  not be the rounded exact quotient.
\<close>

record 'd Externals =
  ORTHANC_ENABLE_PUGIXML :: int
  CompileGetArguments :: "GetArguments \<Rightarrow> Arguments"
  FlattenUri :: "UriComponents \<Rightarrow> string"
  FormatOpenApi :: "'d \<Rightarrow> string set \<Rightarrow> Exception + Json option"
  RoundedCoverage :: "nat \<Rightarrow> nat \<Rightarrow> nat"

text \<open>
  Modelled from the spec: the constants \<^verbatim>\<open>MIME_XML\<close> and \<^verbatim>\<open>MIME_JSON\<close>, the XML and
  JSON media-type tokens, which are defined outside the file.
\<close>

definition MIME_XML :: string where
  "MIME_XML = ''application/xml''"

definition MIME_JSON :: string where
  "MIME_JSON = ''application/json''"

text \<open>
  Modelled from the spec: \<^verbatim>\<open>Toolbox::TokenizeString\<close>, which is defined outside the file
  and cuts a string at every occurrence of the separator.
\<close>

fun TokenizeString :: "string \<Rightarrow> char \<Rightarrow> string list" where
  "TokenizeString [] separator = [[]]"
| "TokenizeString (c # cs) separator =
     (if c = separator then [] # TokenizeString cs separator
      else (case TokenizeString cs separator of
              [] \<Rightarrow> [[c]]
            | t # ts \<Rightarrow> (c # t) # ts))"

text \<open>
  Modelled from the spec: \<^verbatim>\<open>RestApiOutput\<close>, the wrapper of the output sink that carries
  the method of the request and the negotiated JSON-to-XML flag, JSON being the default.
\<close>

record RestApiOutput =
  output_method :: HttpMethod
  convertJsonToXml :: bool
  finalized :: bool

definition RestApiOutput_new :: "HttpMethod \<Rightarrow> RestApiOutput" where
  "RestApiOutput_new m = \<lparr>output_method = m, convertJsonToXml = False, finalized = False\<rparr>"

definition SetConvertJsonToXml :: "bool \<Rightarrow> RestApiOutput \<Rightarrow> RestApiOutput" where
  "SetConvertJsonToXml b out = out\<lparr>convertJsonToXml := b\<rparr>"

definition Finalize :: "RestApiOutput \<Rightarrow> RestApiOutput" where
  "Finalize out = out\<lparr>finalized := True\<rparr>"

subsection \<open>Calls, handlers and resources\<close>

text \<open>
  The four call classes, with the arguments of their constructors in the order of the source:
  output, origin, remote IP, user name, HTTP headers, URI components, trailing, full URI, and
  then the GET arguments or the body. The reference to the \<^verbatim>\<open>RestApi\<close> is left out. A
  body is the string of its bytes, the empty string for \<^verbatim>\<open>NULL\<close> with size 0.
\<close>

datatype Call =
    RestApiGetCall RestApiOutput RequestOrigin string string Arguments Arguments
      UriComponents UriComponents Arguments
  | RestApiPostCall RestApiOutput RequestOrigin string string Arguments Arguments
      UriComponents UriComponents string
  | RestApiDeleteCall RestApiOutput RequestOrigin string string Arguments Arguments
      UriComponents UriComponents
  | RestApiPutCall RestApiOutput RequestOrigin string string Arguments Arguments
      UriComponents UriComponents string

fun call_method :: "Call \<Rightarrow> HttpMethod" where
  "call_method (RestApiGetCall out orig ip user hs comps tr uri args) = HttpMethod_Get"
| "call_method (RestApiPostCall out orig ip user hs comps tr uri body) = HttpMethod_Post"
| "call_method (RestApiDeleteCall out orig ip user hs comps tr uri) = HttpMethod_Delete"
| "call_method (RestApiPutCall out orig ip user hs comps tr uri body) = HttpMethod_Put"

text \<open>
  What the handlers work on: the state of the server (\<open>'w\<close>, which a handler reads and
  changes), the calls that have been handed to handlers so far, and the log.
\<close>

datatype LogEntry =
    Info_MethodNotAllowed HttpMethod string
  | Warning_Ignoring HttpMethod string
  | Warning_Coverage nat nat nat

record 'w System =
  world :: 'w
  invoked :: "Call list"
  logged :: "LogEntry list"

text \<open>
  Modelled from the spec: \<^verbatim>\<open>RestApiHierarchy::Resource\<close>, which holds zero or one handler
  per HTTP method. \<^verbatim>\<open>Resource::Handle\<close> runs the handler of the method of the call. A
  handler changes the state of the server and either raises, or makes \<^verbatim>\<open>Handle\<close> answer
  \<^verbatim>\<open>false\<close> (\<open>Inr None\<close>), or makes it answer \<^verbatim>\<open>true\<close> (\<open>Inr (Some d)\<close>), where
  \<open>d\<close> is the documentation it has left in the call.
\<close>

type_synonym ('w, 'd) Handler = "Call \<Rightarrow> 'w \<Rightarrow> (Exception + 'd option) \<times> 'w"

type_synonym ('w, 'd) Resource = "HttpMethod \<Rightarrow> ('w, 'd) Handler option"

definition HasHandler :: "('w, 'd) Resource \<Rightarrow> HttpMethod \<Rightarrow> bool" where
  "HasHandler resource m = (resource m \<noteq> None)"

definition IsEmpty :: "('w, 'd) Resource \<Rightarrow> bool" where
  "IsEmpty resource =
     (resource HttpMethod_Get = None \<and> resource HttpMethod_Post = None \<and>
      resource HttpMethod_Delete = None \<and> resource HttpMethod_Put = None)"

definition Resource_Handle ::
  "('w, 'd) Resource \<Rightarrow> Call \<Rightarrow> 'w System \<Rightarrow> (Exception + 'd option) \<times> 'w System" where
  "Resource_Handle resource call s =
     (case resource (call_method call) of
        None \<Rightarrow> (Inr None, s)
      | Some handler \<Rightarrow>
          (case handler call (world s) of
             (r, w) \<Rightarrow> (r, s\<lparr>world := w, invoked := invoked s @ [call]\<rparr>)))"

subsection \<open>The hierarchy of resources\<close>

text \<open>
  Modelled from the spec: \<^verbatim>\<open>RestApiHierarchy\<close>, the trie, which is defined outside the
  file. A node owns the handlers of the template that ends at it, the handlers of the template
  that ends at it with a trailing wildcard, its children keyed by literal segment, and at most
  one named-capture child.
\<close>

datatype ('w, 'd) RestApiHierarchy =
  Node (handlers: "('w, 'd) Resource")
       (handlersWithTrailing: "('w, 'd) Resource")
       (children: "(string \<times> ('w, 'd) RestApiHierarchy) list")
       (wildcardChild: "(string \<times> ('w, 'd) RestApiHierarchy) option")

text \<open>
  The visitor protocol \<^verbatim>\<open>IVisitor::Visit(resource, uri, hasTrailing, components, trailing)\<close>
  on a state \<open>'s\<close>: a visit answers a Boolean or raises, and leaves a state in either case.
\<close>

type_synonym ('w, 'd, 's) Visitor =
  "('w, 'd) Resource \<Rightarrow> UriComponents \<Rightarrow> bool \<Rightarrow> Arguments \<Rightarrow> UriComponents \<Rightarrow> 's
   \<Rightarrow> (Exception + bool) \<times> 's"

text \<open>
  Modelled from the spec: \<^verbatim>\<open>ExploreAllResources\<close>, the pre-order traversal that calls the
  visitor once for every resource that holds at least one handler, with the names of the
  captures bound to empty values and no trailing segment. A capture is rendered in the path
  as its name between braces. An exception of the visitor leaves the traversal.
\<close>

fun ExploreAllResources ::
  "('w, 'd, 's) Visitor \<Rightarrow> UriComponents \<Rightarrow> string list \<Rightarrow> ('w, 'd) RestApiHierarchy \<Rightarrow> 's
   \<Rightarrow> Exception option \<times> 's"
and ExploreChildren ::
  "('w, 'd, 's) Visitor \<Rightarrow> UriComponents \<Rightarrow> string list
   \<Rightarrow> (string \<times> ('w, 'd) RestApiHierarchy) list \<Rightarrow> 's \<Rightarrow> Exception option \<times> 's"
where
  "ExploreAllResources visit path names (Node h t cs wc) s =
     (case (if IsEmpty h then (Inr True, s)
            else visit h path False (map (\<lambda>n. (n, [])) names) [] s) of
        (Inl e, s1) \<Rightarrow> (Some e, s1)
      | (Inr b1, s1) \<Rightarrow>
          (case (if IsEmpty t then (Inr True, s1)
                 else visit t path True (map (\<lambda>n. (n, [])) names) [] s1) of
             (Inl e, s2) \<Rightarrow> (Some e, s2)
           | (Inr b2, s2) \<Rightarrow>
               (case ExploreChildren visit path names cs s2 of
                  (Some e, s3) \<Rightarrow> (Some e, s3)
                | (None, s3) \<Rightarrow>
                    (case wc of
                       None \<Rightarrow> (None, s3)
                     | Some (name, c) \<Rightarrow>
                         ExploreAllResources visit (path @ [''{'' @ name @ ''}''])
                           (names @ [name]) c s3))))"
| "ExploreChildren visit path names [] s = (None, s)"
| "ExploreChildren visit path names ((seg, c) # cs) s =
     (case ExploreAllResources visit (path @ [seg]) names c s of
        (Some e, s1) \<Rightarrow> (Some e, s1)
      | (None, s1) \<Rightarrow> ExploreChildren visit path names cs s1)"

text \<open>
  Modelled from the spec: \<^verbatim>\<open>LookupResource\<close>, the depth-first resolution of a URI. With
  a segment left it tries the literal child, then the named-capture child, which binds the
  segment to its name, then the trailing wildcard, which takes all the segments left. With no
  segment left at a node that holds a handler it calls the visitor and answers what the visitor
  answers.
\<close>

fun LookupSegments ::
  "('w, 'd, 's) Visitor \<Rightarrow> UriComponents \<Rightarrow> Arguments \<Rightarrow> UriComponents
   \<Rightarrow> ('w, 'd) RestApiHierarchy \<Rightarrow> 's \<Rightarrow> (Exception + bool) \<times> 's"
and LookupChild ::
  "('w, 'd, 's) Visitor \<Rightarrow> UriComponents \<Rightarrow> Arguments \<Rightarrow> string \<Rightarrow> UriComponents
   \<Rightarrow> (string \<times> ('w, 'd) RestApiHierarchy) list \<Rightarrow> 's \<Rightarrow> (Exception + bool) \<times> 's"
where
  "LookupSegments visit uri components [] (Node h t cs wc) s =
     (if IsEmpty h then (Inr False, s) else visit h uri False components [] s)"
| "LookupSegments visit uri components (seg # rest) (Node h t cs wc) s =
     (case LookupChild visit uri components seg rest cs s of
        (Inl e, s1) \<Rightarrow> (Inl e, s1)
      | (Inr True, s1) \<Rightarrow> (Inr True, s1)
      | (Inr False, s1) \<Rightarrow>
          (case (case wc of
                   None \<Rightarrow> (Inr False, s1)
                 | Some (name, c) \<Rightarrow>
                     LookupSegments visit uri (AList.update name seg components) rest c s1) of
             (Inl e, s2) \<Rightarrow> (Inl e, s2)
           | (Inr True, s2) \<Rightarrow> (Inr True, s2)
           | (Inr False, s2) \<Rightarrow>
               (if IsEmpty t then (Inr False, s2)
                else visit t uri True components (seg # rest) s2)))"
| "LookupChild visit uri components seg rest [] s = (Inr False, s)"
| "LookupChild visit uri components seg rest ((key, c) # cs) s =
     (if key = seg then LookupSegments visit uri components rest c s
      else LookupChild visit uri components seg rest cs s)"

definition LookupResource ::
  "('w, 'd) RestApiHierarchy \<Rightarrow> UriComponents \<Rightarrow> ('w, 'd, 's) Visitor \<Rightarrow> 's
   \<Rightarrow> (Exception + bool) \<times> 's" where
  "LookupResource trie uri visit s = LookupSegments visit uri [] uri trie s"

text \<open>
  Modelled from the spec: \<^verbatim>\<open>GetAcceptedMethods\<close>, the same walk with a visitor that stops
  at the node it reaches and collects the methods that have a handler there.
\<close>

definition AcceptedMethodsCollector :: "('w, 'd, HttpMethod set) Visitor" where
  "AcceptedMethodsCollector resource uri hasTrailing components trailing methods =
     (Inr True, methods \<union> set (filter (HasHandler resource) canonical_order))"

definition GetAcceptedMethods ::
  "('w, 'd) RestApiHierarchy \<Rightarrow> UriComponents \<Rightarrow> HttpMethod set" where
  "GetAcceptedMethods trie uri = snd (LookupResource trie uri AcceptedMethodsCollector {})"

subsection \<open>The visitor of live requests\<close>

text \<open>
  The members of \<^verbatim>\<open>HttpHandlerVisitor\<close> in the order of its constructor, without the
  references \<^verbatim>\<open>api_\<close> and \<^verbatim>\<open>output_\<close>: origin, remote IP, user name, method, headers, GET
  arguments, body. The output it refers to is the \<open>wrappedOutput\<close> of the state of the
  request, next to the \<^verbatim>\<open>HttpOutput\<close> of the server, which is the list of the Allow
  headers of the method-not-allowed answers sent through it.
\<close>

datatype HttpHandlerVisitor =
  HttpHandlerVisitor RequestOrigin string string HttpMethod Arguments Arguments string

type_synonym HttpOutput = "string list"

definition SendMethodNotAllowed :: "string \<Rightarrow> HttpOutput \<Rightarrow> HttpOutput" where
  "SendMethodNotAllowed allowed out = out @ [allowed]"

record 'w Live =
  wrappedOutput :: RestApiOutput
  httpOutput :: HttpOutput
  system :: "'w System"

text \<open>
  The two statements \<^verbatim>\<open>resource.Handle(call); return true;\<close> of every case of the switch:
  the answer of \<^verbatim>\<open>Handle\<close> is dropped, an exception leaves \<^verbatim>\<open>Visit\<close>. The
  enumeration has the four members of the cases, so that the \<^verbatim>\<open>default\<close> case of the
  switch is not reached.
\<close>

definition Handle_return_true ::
  "('w, 'd) Resource \<Rightarrow> Call \<Rightarrow> 'w Live \<Rightarrow> (Exception + bool) \<times> 'w Live" where
  "Handle_return_true resource call s =
     (case Resource_Handle resource call (system s) of
        (Inl e, sys) \<Rightarrow> (Inl e, s\<lparr>system := sys\<rparr>)
      | (Inr r, sys) \<Rightarrow> (Inr True, s\<lparr>system := sys\<rparr>))"

fun HttpHandlerVisitor_Visit :: "HttpHandlerVisitor \<Rightarrow> ('w, 'd, 'w Live) Visitor" where
  "HttpHandlerVisitor_Visit
     (HttpHandlerVisitor origin remoteIp username method headers getArguments bodyData)
     resource uri hasTrailing components trailing s =
     (if HasHandler resource method then
        (case method of
           HttpMethod_Get \<Rightarrow>
             Handle_return_true resource
               (RestApiGetCall (wrappedOutput s) origin remoteIp username
                  headers components trailing uri getArguments) s
         | HttpMethod_Post \<Rightarrow>
             Handle_return_true resource
               (RestApiPostCall (wrappedOutput s) origin remoteIp username
                  headers components trailing uri bodyData) s
         | HttpMethod_Delete \<Rightarrow>
             Handle_return_true resource
               (RestApiDeleteCall (wrappedOutput s) origin remoteIp username
                  headers components trailing uri) s
         | HttpMethod_Put \<Rightarrow>
             Handle_return_true resource
               (RestApiPutCall (wrappedOutput s) origin remoteIp username
                  headers components trailing uri bodyData) s)
      else (Inr False, s))"

subsection \<open>RestApi::Handle\<close>

text \<open>
  The block under \<^verbatim>\<open>#if ORTHANC_ENABLE_PUGIXML == 1\<close>: the tokens of the \<^verbatim>\<open>accept\<close>
  header are scanned from first to last, each one being compared with both media types.
\<close>

definition AcceptToken :: "string \<Rightarrow> RestApiOutput \<Rightarrow> RestApiOutput" where
  "AcceptToken token out =
     (let out = (if token = MIME_XML then SetConvertJsonToXml True out else out);
          out = (if token = MIME_JSON then SetConvertJsonToXml False out else out)
      in out)"

definition NegotiateAccept :: "'d Externals \<Rightarrow> Arguments \<Rightarrow> RestApiOutput \<Rightarrow> RestApiOutput" where
  "NegotiateAccept ext headers out =
     (if ORTHANC_ENABLE_PUGIXML ext = 1 then
        (case map_of headers ''accept'' of
           None \<Rightarrow> out
         | Some accept \<Rightarrow> fold AcceptToken (TokenizeString accept (CHR '';'')) out)
      else out)"

definition Handle ::
  "'d Externals \<Rightarrow> ('w, 'd) RestApiHierarchy \<Rightarrow> HttpOutput \<Rightarrow> RequestOrigin \<Rightarrow> string \<Rightarrow> string
   \<Rightarrow> HttpMethod \<Rightarrow> UriComponents \<Rightarrow> Arguments \<Rightarrow> GetArguments \<Rightarrow> string \<Rightarrow> 'w System
   \<Rightarrow> (Exception + bool) \<times> 'w Live" where
  "Handle ext trie out origin remoteIp username method uri headers getArguments bodyData sys =
     (let wrapped = NegotiateAccept ext headers (RestApiOutput_new method);
          compiled = CompileGetArguments ext getArguments;
          visitor = HttpHandlerVisitor origin remoteIp username method headers compiled bodyData
      in case LookupResource trie uri (HttpHandlerVisitor_Visit visitor)
                \<lparr>wrappedOutput = wrapped, httpOutput = out, system = sys\<rparr> of
           (Inl e, s) \<Rightarrow> (Inl e, s)
         | (Inr True, s) \<Rightarrow> (Inr True, s\<lparr>wrappedOutput := Finalize (wrappedOutput s)\<rparr>)
         | (Inr False, s) \<Rightarrow>
             (let methods = GetAcceptedMethods trie uri
              in if methods = {} then (Inr False, s)
                 else (Inr True,
                       s\<lparr>httpOutput := SendMethodNotAllowed (MethodsToString methods) (httpOutput s),
                         system := (system s)\<lparr>logged := logged (system s) @
                           [Info_MethodNotAllowed method (FlattenUri ext uri)]\<rparr>\<rparr>)))"

subsection \<open>The visitor of the documentation pass\<close>

text \<open>
  The operations of \<^verbatim>\<open>Json::Value\<close> the file uses: \<^verbatim>\<open>isMember\<close>, reading
  \<^verbatim>\<open>value[key]\<close>, which is null when the key is absent, and assigning \<^verbatim>\<open>value[key] = x\<close>,
  which turns a null value into an object. Assigning a member of a string or of an array is an
  error of the library that the file never reaches; the value is left as it is.
\<close>

fun isMember :: "string \<Rightarrow> Json \<Rightarrow> bool" where
  "isMember key (JObject members) = (map_of members key \<noteq> None)"
| "isMember key JNull = False"
| "isMember key (JString x) = False"
| "isMember key (JArray xs) = False"

fun Json_member :: "string \<Rightarrow> Json \<Rightarrow> Json" where
  "Json_member key (JObject members) = (case map_of members key of None \<Rightarrow> JNull | Some x \<Rightarrow> x)"
| "Json_member key JNull = JNull"
| "Json_member key (JString x) = JNull"
| "Json_member key (JArray xs) = JNull"

fun Json_assign :: "string \<Rightarrow> Json \<Rightarrow> Json \<Rightarrow> Json" where
  "Json_assign key x (JObject members) = JObject (AList.update key x members)"
| "Json_assign key x JNull = JObject [(key, x)]"
| "Json_assign key x (JString y) = JString y"
| "Json_assign key x (JArray ys) = JArray ys"

text \<open>
  The members of \<^verbatim>\<open>OpenApiVisitor\<close>, without the reference \<^verbatim>\<open>restApi_\<close>. The two counters
  have the type \<^verbatim>\<open>size_t\<close>. The class is local to the file and its only visitor is the
  one of \<^verbatim>\<open>GenerateOpenApiDocumentation\<close>, whose traversal increments a counter at most
  once for a handler that the trie holds in memory; the counters therefore stay below the
  range of \<^verbatim>\<open>size_t\<close> and are natural numbers here.
\<close>

record OpenApiVisitor =
  paths :: Json
  successPathsCount :: nat
  totalPathsCount :: nat

definition OpenApiVisitor_new :: OpenApiVisitor where
  "OpenApiVisitor_new = \<lparr>paths = JObject [], successPathsCount = 0, totalPathsCount = 0\<rparr>"

fun method_key :: "HttpMethod \<Rightarrow> string" where
  "method_key HttpMethod_Get = ''get''"
| "method_key HttpMethod_Post = ''post''"
| "method_key HttpMethod_Delete = ''delete''"
| "method_key HttpMethod_Put = ''put''"

text \<open>
  The call that a block of \<^verbatim>\<open>OpenApiVisitor::Visit\<close> builds for its method: a fresh output,
  the origin \<^verbatim>\<open>RequestOrigin_Documentation\<close>, empty remote IP, user name, headers and
  trailing, and empty GET arguments or a null body.
\<close>

fun DocumentationCall :: "HttpMethod \<Rightarrow> Arguments \<Rightarrow> UriComponents \<Rightarrow> Call" where
  "DocumentationCall HttpMethod_Get uriArguments uri =
     RestApiGetCall (RestApiOutput_new HttpMethod_Get) RequestOrigin_Documentation [] []
       [] uriArguments [] uri []"
| "DocumentationCall HttpMethod_Post uriArguments uri =
     RestApiPostCall (RestApiOutput_new HttpMethod_Post) RequestOrigin_Documentation [] []
       [] uriArguments [] uri []"
| "DocumentationCall HttpMethod_Delete uriArguments uri =
     RestApiDeleteCall (RestApiOutput_new HttpMethod_Delete) RequestOrigin_Documentation [] []
       [] uriArguments [] uri"
| "DocumentationCall HttpMethod_Put uriArguments uri =
     RestApiPutCall (RestApiOutput_new HttpMethod_Put) RequestOrigin_Documentation [] []
       [] uriArguments [] uri []"

text \<open>
  The expression under \<^verbatim>\<open>try\<close> with its two \<^verbatim>\<open>catch\<close> clauses: the fragment when
  \<^verbatim>\<open>ok\<close> ends up true, nothing when \<^verbatim>\<open>Handle\<close> or \<^verbatim>\<open>FormatOpenApi\<close> answers false or
  raises. \<^verbatim>\<open>FormatOpenApi\<close> is only called when \<^verbatim>\<open>Handle\<close> has answered true.
\<close>

definition TryDocumentation ::
  "'d Externals \<Rightarrow> string set \<Rightarrow> Exception + 'd option \<Rightarrow> Json option" where
  "TryDocumentation ext uriArgumentsNames handled =
     (case handled of
        Inl (OrthancException code) \<Rightarrow> None
      | Inl bad_lexical_cast \<Rightarrow> None
      | Inr None \<Rightarrow> None
      | Inr (Some documentation) \<Rightarrow>
          (case FormatOpenApi ext documentation uriArgumentsNames of
             Inl (OrthancException code) \<Rightarrow> None
           | Inl bad_lexical_cast \<Rightarrow> None
           | Inr None \<Rightarrow> None
           | Inr (Some v) \<Rightarrow> Some v))"

text \<open>
  One of the four blocks \<^verbatim>\<open>if (resource.HasHandler(m)) { ... }\<close> of
  \<^verbatim>\<open>OpenApiVisitor::Visit\<close>. The blocks differ in the method, in the class of the call,
  in the key under which the fragment is stored and in the name of the method in the warning.
\<close>

definition VisitMethod ::
  "'d Externals \<Rightarrow> ('w, 'd) Resource \<Rightarrow> string \<Rightarrow> UriComponents \<Rightarrow> Arguments \<Rightarrow> string set
   \<Rightarrow> HttpMethod \<Rightarrow> OpenApiVisitor \<times> 'w System \<Rightarrow> OpenApiVisitor \<times> 'w System" where
  "VisitMethod ext resource path uri uriArguments uriArgumentsNames m st =
     (case st of (v, s) \<Rightarrow>
        if HasHandler resource m then
          (let v = v\<lparr>totalPathsCount := totalPathsCount v + 1\<rparr>;
               call = DocumentationCall m uriArguments uri
           in case Resource_Handle resource call s of
                (handled, s) \<Rightarrow>
                  (case TryDocumentation ext uriArgumentsNames handled of
                     Some fragment \<Rightarrow>
                       (v\<lparr>paths := Json_assign path
                                      (Json_assign (method_key m) fragment
                                         (Json_member path (paths v)))
                                      (paths v),
                          successPathsCount := successPathsCount v + 1\<rparr>, s)
                   | None \<Rightarrow>
                       (v, s\<lparr>logged := logged s @ [Warning_Ignoring m path]\<rparr>)))
        else (v, s))"

text \<open>
  \<^verbatim>\<open>std::string::c_str()\<close> read back as a string: the characters before the first NUL.
\<close>

definition c_str :: "string \<Rightarrow> string" where
  "c_str name = takeWhile (\<lambda>c. c \<noteq> CHR 0x00) name"

text \<open>
  The loop over \<^verbatim>\<open>components\<close>, which inserts \<^verbatim>\<open>it->first.c_str()\<close> into the set of
  names and binds \<^verbatim>\<open>it->first\<close> to the empty string. The assertion that the values are
  empty is not part of a release build.
\<close>

definition CollectArguments :: "Arguments \<Rightarrow> string set \<times> Arguments" where
  "CollectArguments components =
     fold (\<lambda>it (uriArgumentsNames, uriArguments).
             (insert (c_str (fst it)) uriArgumentsNames, AList.update (fst it) [] uriArguments))
          components ({}, [])"

definition PathOf :: "'d Externals \<Rightarrow> UriComponents \<Rightarrow> bool \<Rightarrow> string" where
  "PathOf ext uri hasTrailing =
     (let path = FlattenUri ext uri
      in if hasTrailing then path @ ''/{...}'' else path)"

definition OpenApiVisitor_Visit ::
  "'d Externals \<Rightarrow> ('w, 'd, OpenApiVisitor \<times> 'w System) Visitor" where
  "OpenApiVisitor_Visit ext resource uri hasTrailing components trailing st =
     (let path = PathOf ext uri hasTrailing
      in if isMember path (paths (fst st)) then
           (Inl (OrthancException ErrorCode_InternalError), st)
         else
           (case CollectArguments components of
              (uriArgumentsNames, uriArguments) \<Rightarrow>
                (let uriArgumentsNames =
                       (if hasTrailing then insert ''...'' uriArgumentsNames
                        else uriArgumentsNames);
                     uriArguments =
                       (if hasTrailing then AList.update ''...'' [] uriArguments
                        else uriArguments);
                     st = VisitMethod ext resource path uri uriArguments uriArgumentsNames
                            HttpMethod_Get st;
                     st = VisitMethod ext resource path uri uriArguments uriArgumentsNames
                            HttpMethod_Post st;
                     st = VisitMethod ext resource path uri uriArguments uriArgumentsNames
                            HttpMethod_Delete st;
                     st = VisitMethod ext resource path uri uriArguments uriArgumentsNames
                            HttpMethod_Put st
                 in (Inr True, st))))"

subsection \<open>RestApi::GenerateOpenApiDocumentation\<close>

text \<open>
  The function assigns the document after the traversal, so that an exception of the traversal
  leaves it without a document and without the log of the coverage. The assertion that the
  count of successes is at most the count of probes is not a step of the function here: it is
  proved below to hold of every visitor. The divisor of the coverage is the count of probes,
  replaced by 1 when it is 0; the quotient itself is the single-precision computation that the
  file takes from elsewhere.
\<close>

definition GenerateOpenApiDocumentation ::
  "'d Externals \<Rightarrow> ('w, 'd) RestApiHierarchy \<Rightarrow> 'w System \<Rightarrow> (Exception + Json) \<times> 'w System" where
  "GenerateOpenApiDocumentation ext trie sys =
     (case ExploreAllResources (OpenApiVisitor_Visit ext) [] [] trie (OpenApiVisitor_new, sys) of
        (Some e, (visitor, s)) \<Rightarrow> (Inl e, s)
      | (None, (visitor, s)) \<Rightarrow>
          (let target = JObject [];
               target = Json_assign ''info'' (JObject []) target;
               target = Json_assign ''openapi'' (JString ''3.0.0'') target;
               target = Json_assign ''servers'' (JArray []) target;
               target = Json_assign ''paths'' (paths visitor) target
           in (let totalPaths = totalPathsCount visitor;
                   totalPaths = (if totalPaths = 0 then 1 else totalPaths)
               in (Inr target,
                   s\<lparr>logged := logged s @
                      [Warning_Coverage (successPathsCount visitor) (totalPathsCount visitor)
                         (RoundedCoverage ext (successPathsCount visitor) totalPaths)]\<rparr>))))"

subsection \<open>The traversal as a list of visits\<close>

text \<open>
  The resources of a trie that hold a handler, each with the path, the trailing flag and the
  components that the traversal hands to the visitor, listed in the order of the traversal.
  \<open>VisitAll\<close> calls the visitor on such a list and stops at the first exception.
\<close>

type_synonym ('w, 'd) Visit = "('w, 'd) Resource \<times> UriComponents \<times> bool \<times> Arguments"

fun Resources ::
  "UriComponents \<Rightarrow> string list \<Rightarrow> ('w, 'd) RestApiHierarchy \<Rightarrow> ('w, 'd) Visit list"
and ChildrenResources ::
  "UriComponents \<Rightarrow> string list \<Rightarrow> (string \<times> ('w, 'd) RestApiHierarchy) list
   \<Rightarrow> ('w, 'd) Visit list"
where
  "Resources path names (Node h t cs wc) =
     (if IsEmpty h then [] else [(h, path, False, map (\<lambda>n. (n, [])) names)]) @
     (if IsEmpty t then [] else [(t, path, True, map (\<lambda>n. (n, [])) names)]) @
     ChildrenResources path names cs @
     (case wc of
        None \<Rightarrow> []
      | Some (name, c) \<Rightarrow> Resources (path @ [''{'' @ name @ ''}'']) (names @ [name]) c)"
| "ChildrenResources path names [] = []"
| "ChildrenResources path names ((seg, c) # cs) =
     Resources (path @ [seg]) names c @ ChildrenResources path names cs"

fun VisitAll :: "('w, 'd, 's) Visitor \<Rightarrow> ('w, 'd) Visit list \<Rightarrow> 's \<Rightarrow> Exception option \<times> 's" where
  "VisitAll visit [] s = (None, s)"
| "VisitAll visit ((resource, uri, hasTrailing, components) # rest) s =
     (case visit resource uri hasTrailing components [] s of
        (Inl e, s1) \<Rightarrow> (Some e, s1)
      | (Inr b, s1) \<Rightarrow> VisitAll visit rest s1)"

text \<open>
  The order of the four blocks of \<^verbatim>\<open>OpenApiVisitor::Visit\<close>.
\<close>

definition method_order :: "HttpMethod list" where
  "method_order = [HttpMethod_Get, HttpMethod_Post, HttpMethod_Delete, HttpMethod_Put]"

text \<open>
  Any sequence of calls of \<^verbatim>\<open>OpenApiVisitor::Visit\<close> on one visitor, whatever the caller:
  the visitor keeps the state a call leaves, also when the call raises.
\<close>

type_synonym ('w, 'd) VisitCall =
  "('w, 'd) Resource \<times> UriComponents \<times> bool \<times> Arguments \<times> UriComponents"

fun VisitSequence ::
  "'d Externals \<Rightarrow> ('w, 'd) VisitCall list \<Rightarrow> OpenApiVisitor \<times> 'w System
   \<Rightarrow> OpenApiVisitor \<times> 'w System" where
  "VisitSequence ext [] st = st"
| "VisitSequence ext ((resource, uri, hasTrailing, components, trailing) # rest) st =
     VisitSequence ext rest
       (snd (OpenApiVisitor_Visit ext resource uri hasTrailing components trailing st))"

text \<open>
  The names and the arguments that \<^verbatim>\<open>OpenApiVisitor::Visit\<close> derives from the components
  and the trailing flag, and the four blocks in a row, which is what a visit runs once the
  path has passed the test of \<^verbatim>\<open>isMember\<close>.
\<close>

definition UriArgumentsNames :: "Arguments \<Rightarrow> bool \<Rightarrow> string set" where
  "UriArgumentsNames components hasTrailing =
     (if hasTrailing then insert ''...'' (fst (CollectArguments components))
      else fst (CollectArguments components))"

definition UriArguments :: "Arguments \<Rightarrow> bool \<Rightarrow> Arguments" where
  "UriArguments components hasTrailing =
     (if hasTrailing then AList.update ''...'' [] (snd (CollectArguments components))
      else snd (CollectArguments components))"

definition VisitBlocks ::
  "'d Externals \<Rightarrow> ('w, 'd) Resource \<Rightarrow> UriComponents \<Rightarrow> bool \<Rightarrow> Arguments
   \<Rightarrow> HttpMethod list \<Rightarrow> OpenApiVisitor \<times> 'w System \<Rightarrow> OpenApiVisitor \<times> 'w System" where
  "VisitBlocks ext resource uri hasTrailing components ms st =
     fold (VisitMethod ext resource (PathOf ext uri hasTrailing) uri
             (UriArguments components hasTrailing) (UriArgumentsNames components hasTrailing))
          ms st"

subsection \<open>The documentation pass as the specification words it\<close>

text \<open>
  The key under which the resource of a visit is recorded.
\<close>

definition KeyOf :: "'d Externals \<Rightarrow> ('w, 'd) Visit \<Rightarrow> string" where
  "KeyOf ext visit =
     (case visit of (resource, uri, hasTrailing, components) \<Rightarrow> PathOf ext uri hasTrailing)"


text \<open>
  The registered (path, method) pairs of a list of visits, each with what a dry run of it
  needs: the handler, the call in documentation mode and the names of the URI arguments.
\<close>

type_synonym ('w, 'd) Probe = "('w, 'd) Handler \<times> Call \<times> string set"




text \<open>
  A dry run succeeds when the handler returns success without raising and its documentation
  formats as a fragment. \<open>DryRun\<close> runs the pairs in order, each from the state of the
  server that the one before has left, and lists which of them succeed.
\<close>

definition Documents :: "'d Externals \<Rightarrow> string set \<Rightarrow> Exception + 'd option \<Rightarrow> bool" where
  "Documents ext names handled =
     (case handled of
        Inr (Some d) \<Rightarrow> (case FormatOpenApi ext d names of Inr (Some v) \<Rightarrow> True | _ \<Rightarrow> False)
      | _ \<Rightarrow> False)"

fun DryRun :: "'d Externals \<Rightarrow> ('w, 'd) Probe list \<Rightarrow> 'w \<Rightarrow> bool list" where
  "DryRun ext [] w = []"
| "DryRun ext ((handler, call, names) # rest) w =
     (case handler call w of
        (handled, w1) \<Rightarrow> Documents ext names handled # DryRun ext rest w1)"


text \<open>
  The shape of the path map: every key is the key of a visited resource, and the entry under
  it is an object whose keys are the lower-case names of methods that the resource handles.
\<close>

definition MethodEntry :: "('w, 'd) Resource \<Rightarrow> Json \<Rightarrow> bool" where
  "MethodEntry resource entry =
     (case entry of
        JObject fragments \<Rightarrow>
          (\<forall>(key, fragment) \<in> set fragments.
             \<exists>m \<in> set method_order. HasHandler resource m \<and> key = method_key m)
      | _ \<Rightarrow> False)"

definition PathMap :: "'d Externals \<Rightarrow> ('w, 'd) Visit set \<Rightarrow> Json \<Rightarrow> bool" where
  "PathMap ext visits pathMap =
     (case pathMap of
        JObject entries \<Rightarrow>
          (\<forall>(key, entry) \<in> set entries.
             \<exists>visit \<in> visits. key = KeyOf ext visit \<and> MethodEntry (fst visit) entry)
      | _ \<Rightarrow> False)"

text \<open>
  The same shape while the resource that is recorded under \<open>path\<close> is being visited.
\<close>

definition VisitingMap ::
  "'d Externals \<Rightarrow> ('w, 'd) Visit set \<Rightarrow> ('w, 'd) Resource \<Rightarrow> string \<Rightarrow> Json \<Rightarrow> bool" where
  "VisitingMap ext visits resource path pathMap =
     (case pathMap of
        JObject entries \<Rightarrow>
          (\<forall>(key, entry) \<in> set entries.
             if key = path then MethodEntry resource entry
             else (\<exists>visit \<in> visits. key = KeyOf ext visit \<and> MethodEntry (fst visit) entry))
      | _ \<Rightarrow> False)"

subsection \<open>Handlers that are deterministic in documentation mode\<close>

fun call_origin :: "Call \<Rightarrow> RequestOrigin" where
  "call_origin (RestApiGetCall out orig ip user hs comps tr uri args) = orig"
| "call_origin (RestApiPostCall out orig ip user hs comps tr uri body) = orig"
| "call_origin (RestApiDeleteCall out orig ip user hs comps tr uri) = orig"
| "call_origin (RestApiPutCall out orig ip user hs comps tr uri body) = orig"

text \<open>
  A handler is deterministic in documentation mode when what it answers to a call of origin
  \<^verbatim>\<open>RequestOrigin_Documentation\<close>, the documentation included, does not depend on the
  state of the server. It may still change that state.
\<close>

definition DeterministicInDocumentation :: "('w, 'd) Handler \<Rightarrow> bool" where
  "DeterministicInDocumentation handler =
     (\<forall>call w w'. call_origin call = RequestOrigin_Documentation \<longrightarrow>
        fst (handler call w) = fst (handler call w'))"

definition DeterministicResource :: "('w, 'd) Resource \<Rightarrow> bool" where
  "DeterministicResource resource =
     (\<forall>m handler. resource m = Some handler \<longrightarrow> DeterministicInDocumentation handler)"

definition DeterministicHandlers :: "('w, 'd) RestApiHierarchy \<Rightarrow> bool" where
  "DeterministicHandlers trie =
     (\<forall>visit \<in> set (Resources [] [] trie). DeterministicResource (fst visit))"

subsection \<open>Live requests as the specification words them\<close>

text \<open>
  The call context of a live request: the bound arguments, the trailing segments and the URI,
  with the query arguments for GET and the body for POST and PUT.
\<close>

fun LiveCall ::
  "HttpHandlerVisitor \<Rightarrow> RestApiOutput \<Rightarrow> UriComponents \<Rightarrow> Arguments \<Rightarrow> UriComponents \<Rightarrow> Call"
where
  "LiveCall (HttpHandlerVisitor origin remoteIp username method headers getArguments bodyData)
     out uri components trailing =
     (case method of
        HttpMethod_Get \<Rightarrow>
          RestApiGetCall out origin remoteIp username headers components trailing uri getArguments
      | HttpMethod_Post \<Rightarrow>
          RestApiPostCall out origin remoteIp username headers components trailing uri bodyData
      | HttpMethod_Delete \<Rightarrow>
          RestApiDeleteCall out origin remoteIp username headers components trailing uri
      | HttpMethod_Put \<Rightarrow>
          RestApiPutCall out origin remoteIp username headers components trailing uri bodyData)"

fun visitor_method :: "HttpHandlerVisitor \<Rightarrow> HttpMethod" where
  "visitor_method
     (HttpHandlerVisitor origin remoteIp username method headers getArguments bodyData) = method"

text \<open>
  The state in which \<^verbatim>\<open>RestApi::Handle\<close> starts the lookup, the visitor it builds, and the
  lookup itself.
\<close>

definition HandleState ::
  "'d Externals \<Rightarrow> HttpOutput \<Rightarrow> HttpMethod \<Rightarrow> Arguments \<Rightarrow> 'w System \<Rightarrow> 'w Live" where
  "HandleState ext out method headers sys =
     \<lparr>wrappedOutput = NegotiateAccept ext headers (RestApiOutput_new method),
      httpOutput = out, system = sys\<rparr>"

definition HandleVisitor ::
  "'d Externals \<Rightarrow> RequestOrigin \<Rightarrow> string \<Rightarrow> string \<Rightarrow> HttpMethod \<Rightarrow> Arguments
   \<Rightarrow> GetArguments \<Rightarrow> string \<Rightarrow> HttpHandlerVisitor" where
  "HandleVisitor ext origin remoteIp username method headers getArguments bodyData =
     HttpHandlerVisitor origin remoteIp username method headers
       (CompileGetArguments ext getArguments) bodyData"

definition HandleLookup ::
  "'d Externals \<Rightarrow> ('w, 'd) RestApiHierarchy \<Rightarrow> HttpOutput \<Rightarrow> RequestOrigin \<Rightarrow> string \<Rightarrow> string
   \<Rightarrow> HttpMethod \<Rightarrow> UriComponents \<Rightarrow> Arguments \<Rightarrow> GetArguments \<Rightarrow> string \<Rightarrow> 'w System
   \<Rightarrow> (Exception + bool) \<times> 'w Live" where
  "HandleLookup ext trie out origin remoteIp username method uri headers getArguments
     bodyData sys =
     LookupResource trie uri
       (HttpHandlerVisitor_Visit
          (HandleVisitor ext origin remoteIp username method headers getArguments bodyData))
       (HandleState ext out method headers sys)"

text \<open>
  The output mode as the specification words it: the last token that is one of the two media
  types decides, and JSON is the default.
\<close>

definition LastRecognized :: "string list \<Rightarrow> bool" where
  "LastRecognized tokens =
     (case rev (filter (\<lambda>token. token = MIME_XML \<or> token = MIME_JSON) tokens) of
        [] \<Rightarrow> False
      | token # earlier \<Rightarrow> token = MIME_XML)"

subsection \<open>Examples\<close>

text \<open>
  Concrete collaborators, handlers and tries for the witnesses. The documentation of a call
  is a summary string, which formats when it is not empty; the state of the server counts the
  runs of handlers. The coverage of the examples is the exact quotient rounded to the nearest
  integer, and 999 for a divisor of 0, which sets a division by zero apart.
\<close>

definition example_ext :: "string Externals" where
  "example_ext =
     \<lparr>ORTHANC_ENABLE_PUGIXML = 1,
      CompileGetArguments = (\<lambda>source. source),
      FlattenUri = (\<lambda>uri. concat (map (\<lambda>c. ''/'' @ c) uri)),
      FormatOpenApi = (\<lambda>d names. if d = [] then Inr None else Inr (Some (JString d))),
      RoundedCoverage = (\<lambda>a b. if b = 0 then 999 else (200 * a + b) div (2 * b))\<rparr>"

definition documented :: "(nat, string) Handler" where
  "documented call w = (Inr (Some ''summary''), Suc w)"

definition raising :: "(nat, string) Handler" where
  "raising call w = (Inl (OrthancException (ErrorCode_Other 0)), Suc w)"

definition example_system :: "nat System" where
  "example_system = \<lparr>world = 0, invoked = [], logged = []\<rparr>"

definition no_handlers :: "(nat, string) Resource" where
  "no_handlers = map_of []"

definition example_resource :: "(nat, string) Resource" where
  "example_resource = map_of [(HttpMethod_Get, raising), (HttpMethod_Post, documented)]"

definition only_get :: "(nat, string) Resource" where
  "only_get = map_of [(HttpMethod_Get, documented)]"

text \<open>
  A trie with the templates \<^verbatim>\<open>/r\<close> (GET, which raises, and POST) and \<^verbatim>\<open>/s\<close> (GET).
\<close>

definition example_trie :: "(nat, string) RestApiHierarchy" where
  "example_trie =
     Node no_handlers no_handlers
       [(''r'', Node example_resource no_handlers [] None),
        (''s'', Node only_get no_handlers [] None)] None"

text \<open>
  A trie whose node \<^verbatim>\<open>/a\<close> carries a trailing wildcard and a named-capture child, the
  name of the capture being the three dots. The data model of the trie allows both at one node
  and leaves the name of a capture free. The two resources flatten to the same path
  \<^verbatim>\<open>/a/{...}\<close>.
\<close>

definition clashing_trie :: "(nat, string) RestApiHierarchy" where
  "clashing_trie =
     Node no_handlers no_handlers
       [(''a'', Node no_handlers only_get []
                  (Some (''...'', Node only_get no_handlers [] None)))] None"


definition example_live :: "nat Live" where
  "example_live =
     \<lparr>wrappedOutput = RestApiOutput_new HttpMethod_Get, httpOutput = [],
      system = example_system\<rparr>"

section \<open>Theorems\<close>

text \<open>
  C2. For every set of accepted methods, \<^const>\<open>MethodsToString\<close> is the list of the names
  of exactly the methods of the set, in the order GET, POST, PUT, DELETE, separated by single
  commas; for a non-empty set the string is not empty, and when GET alone is accepted the
  string is \<^verbatim>\<open>GET\<close>.
\<close>

theorem MethodsToString_canonical:
  "MethodsToString methods = allow_header_spec methods
   \<and> (methods \<noteq> {} \<longrightarrow> MethodsToString methods \<noteq> [])
   \<and> MethodsToString {HttpMethod_Get} = ''GET''"
proof -
  have eq: "MethodsToString methods = allow_header_spec methods"
    by (simp add: MethodsToString_def allow_header_spec_def canonical_order_def AddMethod_def)
  have ne: "methods \<noteq> {} \<longrightarrow> MethodsToString methods \<noteq> []"
  proof
    assume "methods \<noteq> {}"
    then obtain m where m: "m \<in> methods" by blast
    show "MethodsToString methods \<noteq> []"
      using m by (cases m) (auto simp add: MethodsToString_def AddMethod_def Let_def)
  qed
  have g: "MethodsToString {HttpMethod_Get} = ''GET''"
    by (simp add: MethodsToString_def AddMethod_def)
  from eq ne g show ?thesis by blast
qed

theorem MethodsToString_canonical_witness:
  "{HttpMethod_Delete, HttpMethod_Get} \<noteq> {}
   \<and> MethodsToString {HttpMethod_Delete, HttpMethod_Get} = ''GET,DELETE''
   \<and> MethodsToString {HttpMethod_Delete, HttpMethod_Get} \<noteq> []"
  using MethodsToString_canonical [of "{HttpMethod_Delete, HttpMethod_Get}"]
  by (simp add: allow_header_spec_def canonical_order_def)

subsection \<open>The traversal and the list of visits\<close>

lemma VisitAll_append:
  "VisitAll visit (xs @ ys) s =
     (case VisitAll visit xs s of (Some e, s1) \<Rightarrow> (Some e, s1) | (None, s1) \<Rightarrow> VisitAll visit ys s1)"
  by (induction xs arbitrary: s) (auto split: prod.splits sum.splits option.splits)

lemma Explore_VisitAll:
  "ExploreAllResources visit path names t s = VisitAll visit (Resources path names t) s"
  "ExploreChildren visit path names cs s = VisitAll visit (ChildrenResources path names cs) s"
proof (induction visit path names t s and visit path names cs s
       rule: ExploreAllResources_ExploreChildren.induct)
  case (1 visit path names h t cs wc s)
  show ?case
  proof (cases "if IsEmpty h then (Inr True, s)
            else visit h path False (map (\<lambda>n. (n, [])) names) [] s")
    case (Pair r1 s1)
    note p1 = Pair
    show ?thesis
    proof (cases r1)
      case (Inl e)
      with p1 show ?thesis by (simp split: if_splits)
    next
      case (Inr b1)
      note r1 = Inr
      show ?thesis
      proof (cases "if IsEmpty t then (Inr True, s1)
                 else visit t path True (map (\<lambda>n. (n, [])) names) [] s1")
        case (Pair r2 s2)
        note p2 = Pair
        show ?thesis
        proof (cases r2)
          case (Inl e)
          with p1 r1 p2 show ?thesis by (simp split: if_splits)
        next
          case (Inr b2)
          note r2 = Inr
          have ihc: "ExploreChildren visit path names cs s2 =
                     VisitAll visit (ChildrenResources path names cs) s2"
            using "1.IH"(1) [OF p1 [symmetric] r1 p2 [symmetric] r2] .
          show ?thesis
          proof (cases "ExploreChildren visit path names cs s2")
            case (Pair r3 s3)
            note p3 = Pair
            show ?thesis
            proof (cases r3)
              case (Some e)
              with p1 r1 p2 r2 p3 ihc show ?thesis
                by (simp add: VisitAll_append split: if_splits)
            next
              case None
              note r3 = None
              show ?thesis
              proof (cases wc)
                case None
                with p1 r1 p2 r2 p3 r3 ihc show ?thesis
                  by (simp add: VisitAll_append split: if_splits)
              next
                case (Some nc)
                obtain name c where nc: "nc = (name, c)" by (cases nc)
                have ihw: "ExploreAllResources visit (path @ [''{'' @ name @ ''}''])
                             (names @ [name]) c s3 =
                           VisitAll visit (Resources (path @ [''{'' @ name @ ''}''])
                             (names @ [name]) c) s3"
                  using "1.IH"(2) [OF p1 [symmetric] r1 p2 [symmetric] r2 p3 [symmetric] r3 Some nc [symmetric]] .
                from p1 r1 p2 r2 p3 r3 ihc ihw Some nc show ?thesis
                  by (simp add: VisitAll_append split: if_splits)
              qed
            qed
          qed
        qed
      qed
    qed
  qed
next
  case (2 visit path names s)
  then show ?case by simp
next
  case (3 visit path names seg c cs s)
  show ?case
  proof (cases "ExploreAllResources visit (path @ [seg]) names c s")
    case (Pair r1 s1)
    show ?thesis
    proof (cases r1)
      case None
      with Pair 3 show ?thesis by (simp add: VisitAll_append)
    next
      case (Some e)
      with Pair 3 show ?thesis by (simp add: VisitAll_append)
    qed
  qed
qed

subsection \<open>The blocks of the documentation visitor\<close>

lemma call_method_DocumentationCall [simp]:
  "call_method (DocumentationCall m uriArguments uri) = m"
  by (cases m) simp_all

lemma Resource_Handle_result:
  "resource m = Some handler \<Longrightarrow>
   Resource_Handle resource (DocumentationCall m uriArguments uri) s =
     (fst (handler (DocumentationCall m uriArguments uri) (world s)),
      s\<lparr>world := snd (handler (DocumentationCall m uriArguments uri) (world s)),
        invoked := invoked s @ [DocumentationCall m uriArguments uri]\<rparr>)"
  by (simp add: Resource_Handle_def split: prod.split)

lemma VisitMethod_absent:
  "\<not> HasHandler resource m \<Longrightarrow>
   VisitMethod ext resource path uri uriArguments names m st = st"
  by (cases st) (simp add: VisitMethod_def)

lemma VisitMethod_failure:
  assumes "HasHandler resource m"
    and "Resource_Handle resource (DocumentationCall m uriArguments uri) s = (handled, s')"
    and "TryDocumentation ext names handled = None"
  shows "VisitMethod ext resource path uri uriArguments names m (v, s) =
           (v\<lparr>totalPathsCount := totalPathsCount v + 1\<rparr>,
            s'\<lparr>logged := logged s' @ [Warning_Ignoring m path]\<rparr>)"
  using assms by (simp add: VisitMethod_def)

lemma VisitMethod_success:
  assumes "HasHandler resource m"
    and "Resource_Handle resource (DocumentationCall m uriArguments uri) s = (handled, s')"
    and "TryDocumentation ext names handled = Some fragment"
  shows "VisitMethod ext resource path uri uriArguments names m (v, s) =
           (v\<lparr>totalPathsCount := totalPathsCount v + 1,
              paths := Json_assign path
                         (Json_assign (method_key m) fragment (Json_member path (paths v)))
                         (paths v),
              successPathsCount := successPathsCount v + 1\<rparr>, s')"
  using assms by (simp add: VisitMethod_def)

lemma VisitMethod_cases:
  obtains (absent) "\<not> HasHandler resource m"
      "VisitMethod ext resource path uri uriArguments names m (v, s) = (v, s)"
  | (failure) handled s' where "HasHandler resource m"
      "Resource_Handle resource (DocumentationCall m uriArguments uri) s = (handled, s')"
      "TryDocumentation ext names handled = None"
      "VisitMethod ext resource path uri uriArguments names m (v, s) =
         (v\<lparr>totalPathsCount := totalPathsCount v + 1\<rparr>,
          s'\<lparr>logged := logged s' @ [Warning_Ignoring m path]\<rparr>)"
  | (success) handled s' fragment where "HasHandler resource m"
      "Resource_Handle resource (DocumentationCall m uriArguments uri) s = (handled, s')"
      "TryDocumentation ext names handled = Some fragment"
      "VisitMethod ext resource path uri uriArguments names m (v, s) =
         (v\<lparr>totalPathsCount := totalPathsCount v + 1,
            paths := Json_assign path
                       (Json_assign (method_key m) fragment (Json_member path (paths v)))
                       (paths v),
            successPathsCount := successPathsCount v + 1\<rparr>, s')"
proof (cases "HasHandler resource m")
  case False
  then show ?thesis using absent VisitMethod_absent [of resource m] by simp
next
  case True
  obtain handled s' where h:
    "Resource_Handle resource (DocumentationCall m uriArguments uri) s = (handled, s')"
    by (cases "Resource_Handle resource (DocumentationCall m uriArguments uri) s")
  show ?thesis
  proof (cases "TryDocumentation ext names handled")
    case None
    from failure [OF True h None VisitMethod_failure [OF True h None]] show ?thesis .
  next
    case (Some fragment)
    from success [OF True h Some VisitMethod_success [OF True h Some]] show ?thesis .
  qed
qed

lemma VisitMethod_counters:
  "successPathsCount (fst st) \<le> totalPathsCount (fst st) \<Longrightarrow>
   successPathsCount (fst (VisitMethod ext resource path uri uriArguments names m st))
     \<le> totalPathsCount (fst (VisitMethod ext resource path uri uriArguments names m st))"
proof (cases st)
  case (Pair v s)
  assume "successPathsCount (fst st) \<le> totalPathsCount (fst st)"
  with Pair show ?thesis
    by (cases rule: VisitMethod_cases [of resource m ext path uri uriArguments names v s]) simp_all
qed

lemma Visit_counters:
  assumes "successPathsCount (fst st) \<le> totalPathsCount (fst st)"
  shows "successPathsCount (fst (snd (OpenApiVisitor_Visit ext resource uri hasTrailing
           components trailing st)))
         \<le> totalPathsCount (fst (snd (OpenApiVisitor_Visit ext resource uri hasTrailing
           components trailing st)))"
  using assms
  by (simp add: OpenApiVisitor_Visit_def Let_def VisitMethod_counters split: prod.split)

lemma VisitSequence_counters:
  "successPathsCount (fst st) \<le> totalPathsCount (fst st) \<Longrightarrow>
   successPathsCount (fst (VisitSequence ext calls st))
     \<le> totalPathsCount (fst (VisitSequence ext calls st))"
proof (induction calls arbitrary: st)
  case Nil
  then show ?case by simp
next
  case (Cons c calls)
  obtain resource uri hasTrailing components trailing
    where c: "c = (resource, uri, hasTrailing, components, trailing)"
    by (cases c)
  show ?case
    unfolding c VisitSequence.simps
    by (rule Cons.IH) (rule Visit_counters [OF Cons.prems])
qed

lemma VisitAll_counters:
  "successPathsCount (fst st) \<le> totalPathsCount (fst st) \<Longrightarrow>
   successPathsCount (fst (snd (VisitAll (OpenApiVisitor_Visit ext) visits st)))
     \<le> totalPathsCount (fst (snd (VisitAll (OpenApiVisitor_Visit ext) visits st)))"
proof (induction visits arbitrary: st)
  case Nil
  then show ?case by simp
next
  case (Cons c visits)
  obtain resource uri hasTrailing components
    where c: "c = (resource, uri, hasTrailing, components)"
    by (cases c)
  obtain r st1 where v:
    "OpenApiVisitor_Visit ext resource uri hasTrailing components [] st = (r, st1)"
    by (cases "OpenApiVisitor_Visit ext resource uri hasTrailing components [] st")
  have inv: "successPathsCount (fst st1) \<le> totalPathsCount (fst st1)"
    using Visit_counters [OF Cons.prems, of ext resource uri hasTrailing components "[]"] v
    by simp
  show ?case
  proof (cases r)
    case (Inl e)
    with c v inv show ?thesis by simp
  next
    case (Inr b)
    with c v Cons.IH [OF inv] show ?thesis by simp
  qed
qed

text \<open>
  C9. After any sequence of calls of \<^verbatim>\<open>OpenApiVisitor::Visit\<close> on a fresh visitor the
  count of successes is at most the count of probes, and so it is for the visitor that
  \<^verbatim>\<open>GenerateOpenApiDocumentation\<close> reads after the traversal, whether the traversal has
  ended or raised.
\<close>

theorem counters_ordered:
  "successPathsCount (fst (VisitSequence ext calls (OpenApiVisitor_new, sys)))
     \<le> totalPathsCount (fst (VisitSequence ext calls (OpenApiVisitor_new, sys)))
   \<and> successPathsCount
        (fst (snd (ExploreAllResources (OpenApiVisitor_Visit ext) [] [] trie
                     (OpenApiVisitor_new, sys))))
     \<le> totalPathsCount
        (fst (snd (ExploreAllResources (OpenApiVisitor_Visit ext) [] [] trie
                     (OpenApiVisitor_new, sys))))"
proof -
  have start: "successPathsCount (fst (OpenApiVisitor_new, sys))
                 \<le> totalPathsCount (fst (OpenApiVisitor_new, sys))"
    by (simp add: OpenApiVisitor_new_def)
  have a: "successPathsCount (fst (VisitSequence ext calls (OpenApiVisitor_new, sys)))
     \<le> totalPathsCount (fst (VisitSequence ext calls (OpenApiVisitor_new, sys)))"
    by (rule VisitSequence_counters [OF start])
  have b: "successPathsCount
        (fst (snd (ExploreAllResources (OpenApiVisitor_Visit ext) [] [] trie
                     (OpenApiVisitor_new, sys))))
     \<le> totalPathsCount
        (fst (snd (ExploreAllResources (OpenApiVisitor_Visit ext) [] [] trie
                     (OpenApiVisitor_new, sys))))"
    unfolding Explore_VisitAll by (rule VisitAll_counters [OF start])
  from a b show ?thesis by (rule conjI)
qed

lemmas example_defs =
  example_ext_def documented_def raising_def example_system_def no_handlers_def
  example_resource_def only_get_def example_trie_def clashing_trie_def

lemmas visitor_defs =
  OpenApiVisitor_Visit_def VisitMethod_def PathOf_def CollectArguments_def
  TryDocumentation_def Resource_Handle_def HasHandler_def IsEmpty_def OpenApiVisitor_new_def
  RestApiOutput_new_def c_str_def Let_def


theorem counters_ordered_witness:
  "successPathsCount (fst (VisitSequence example_ext
      [(example_resource, [''r''], False, [], []), (only_get, [''r''], False, [], [])]
      (OpenApiVisitor_new, example_system))) = 1
   \<and> totalPathsCount (fst (VisitSequence example_ext
      [(example_resource, [''r''], False, [], []), (only_get, [''r''], False, [], [])]
      (OpenApiVisitor_new, example_system))) = 2
   \<and> successPathsCount (fst (VisitSequence example_ext
      [(example_resource, [''r''], False, [], []), (only_get, [''r''], False, [], [])]
      (OpenApiVisitor_new, example_system)))
     \<le> totalPathsCount (fst (VisitSequence example_ext
      [(example_resource, [''r''], False, [], []), (only_get, [''r''], False, [], [])]
      (OpenApiVisitor_new, example_system)))"
  using counters_ordered [of example_ext
      "[(example_resource, [''r''], False, [], []), (only_get, [''r''], False, [], [])]"
      example_system example_trie, THEN conjunct1]
  by (simp add: example_defs visitor_defs)

lemma Visit_duplicate:
  "isMember (PathOf ext uri hasTrailing) (paths (fst st)) \<Longrightarrow>
   OpenApiVisitor_Visit ext resource uri hasTrailing components trailing st =
     (Inl (OrthancException ErrorCode_InternalError), st)"
  by (simp add: OpenApiVisitor_Visit_def)

text \<open>
  C10. A call of \<^verbatim>\<open>OpenApiVisitor::Visit\<close> for a path that is already a key of the path
  map raises \<^verbatim>\<open>OrthancException(ErrorCode_InternalError)\<close> and leaves the visitor as it
  was; when the traversal of \<^verbatim>\<open>GenerateOpenApiDocumentation\<close> reaches such a resource,
  the exception leaves \<^verbatim>\<open>GenerateOpenApiDocumentation\<close>, which produces no document.
\<close>

theorem duplicate_path_aborts:
  "(isMember (PathOf ext uri hasTrailing) (paths v) \<longrightarrow>
      OpenApiVisitor_Visit ext resource uri hasTrailing components trailing (v, s) =
        (Inl (OrthancException ErrorCode_InternalError), (v, s)))
   \<and> (Resources [] [] trie = before @ (resource, uri, hasTrailing, components) # rest
      \<and> VisitAll (OpenApiVisitor_Visit ext) before (OpenApiVisitor_new, sys) = (None, (v, s))
      \<and> isMember (PathOf ext uri hasTrailing) (paths v) \<longrightarrow>
      GenerateOpenApiDocumentation ext trie sys =
        (Inl (OrthancException ErrorCode_InternalError), s))"
proof (intro conjI impI)
  assume "isMember (PathOf ext uri hasTrailing) (paths v)"
  then show "OpenApiVisitor_Visit ext resource uri hasTrailing components trailing (v, s) =
        (Inl (OrthancException ErrorCode_InternalError), (v, s))"
    by (simp add: Visit_duplicate)
next
  assume a: "Resources [] [] trie = before @ (resource, uri, hasTrailing, components) # rest
      \<and> VisitAll (OpenApiVisitor_Visit ext) before (OpenApiVisitor_new, sys) = (None, (v, s))
      \<and> isMember (PathOf ext uri hasTrailing) (paths v)"
  then have dup: "OpenApiVisitor_Visit ext resource uri hasTrailing components [] (v, s) =
        (Inl (OrthancException ErrorCode_InternalError), (v, s))"
    by (simp add: Visit_duplicate)
  have "ExploreAllResources (OpenApiVisitor_Visit ext) [] [] trie (OpenApiVisitor_new, sys) =
        (Some (OrthancException ErrorCode_InternalError), (v, s))"
    using a dup by (simp add: Explore_VisitAll VisitAll_append)
  then show "GenerateOpenApiDocumentation ext trie sys =
        (Inl (OrthancException ErrorCode_InternalError), s)"
    by (simp add: GenerateOpenApiDocumentation_def)
qed


theorem duplicate_path_aborts_witness:
  "isMember (PathOf example_ext [''a'', ''{...}''] False)
     (paths \<lparr>paths = JObject [(''/a/{...}'', JObject [(''get'', JString ''summary'')])],
             successPathsCount = 1, totalPathsCount = 1\<rparr>)
   \<and> Resources [] [] clashing_trie =
       [(only_get, [''a''], True, [])] @ (only_get, [''a'', ''{...}''], False, [(''...'', [])]) # []
   \<and> VisitAll (OpenApiVisitor_Visit example_ext) [(only_get, [''a''], True, [])]
         (OpenApiVisitor_new, example_system) =
       (None,
        \<lparr>paths = JObject [(''/a/{...}'', JObject [(''get'', JString ''summary'')])],
          successPathsCount = 1, totalPathsCount = 1\<rparr>,
        \<lparr>world = 1,
          invoked = [DocumentationCall HttpMethod_Get [(''...'', [])] [''a'']],
          logged = []\<rparr>)
   \<and> GenerateOpenApiDocumentation example_ext clashing_trie example_system =
       (Inl (OrthancException ErrorCode_InternalError),
        \<lparr>world = 1,
          invoked = [DocumentationCall HttpMethod_Get [(''...'', [])] [''a'']],
          logged = []\<rparr>)"
  using duplicate_path_aborts
    [where ext = example_ext and uri = "[''a'', ''{...}'']" and hasTrailing = False
       and v = "\<lparr>paths = JObject [(''/a/{...}'', JObject [(''get'', JString ''summary'')])],
                  successPathsCount = 1, totalPathsCount = 1\<rparr>"
       and resource = only_get and components = "[(''...'', [])]" and trailing = "[]"
       and s = "\<lparr>world = 1,
                  invoked = [DocumentationCall HttpMethod_Get [(''...'', [])] [''a'']],
                  logged = []\<rparr>"
       and trie = clashing_trie and before = "[(only_get, [''a''], True, [])]"
       and rest = "[]" and sys = example_system]
  by (simp add: example_defs visitor_defs)

lemma Visit_fresh:
  "\<not> isMember (PathOf ext uri hasTrailing) (paths (fst st)) \<Longrightarrow>
   OpenApiVisitor_Visit ext resource uri hasTrailing components trailing st =
     (Inr True, VisitBlocks ext resource uri hasTrailing components method_order st)"
  by (simp add: OpenApiVisitor_Visit_def VisitBlocks_def UriArguments_def
        UriArgumentsNames_def method_order_def Let_def split: prod.split)

lemma Resource_Handle_invoked:
  "HasHandler resource (call_method call) \<Longrightarrow> Resource_Handle resource call s = (handled, s')
   \<Longrightarrow> invoked s' = invoked s @ [call]"
  by (auto simp add: Resource_Handle_def HasHandler_def split: prod.splits)

lemma VisitMethod_invoked:
  "invoked (snd (VisitMethod ext resource path uri uriArguments names m st)) =
     invoked (snd st) @
       (if HasHandler resource m then [DocumentationCall m uriArguments uri] else [])"
proof (cases st)
  case (Pair v s)
  show ?thesis
  proof (cases rule: VisitMethod_cases [of resource m ext path uri uriArguments names v s])
    case absent
    with Pair show ?thesis by simp
  next
    case (failure handled s')
    with Pair Resource_Handle_invoked [of resource "DocumentationCall m uriArguments uri" s]
    show ?thesis by simp
  next
    case (success handled s' fragment)
    with Pair Resource_Handle_invoked [of resource "DocumentationCall m uriArguments uri" s]
    show ?thesis by simp
  qed
qed

lemma VisitBlocks_invoked:
  "\<exists>calls. invoked (snd (VisitBlocks ext resource uri hasTrailing components ms st)) =
            invoked (snd st) @ calls
          \<and> map call_method calls = filter (HasHandler resource) ms"
proof (induction ms arbitrary: st)
  case Nil
  then show ?case by (simp add: VisitBlocks_def)
next
  case (Cons m ms)
  let ?st1 = "VisitMethod ext resource (PathOf ext uri hasTrailing) uri
                (UriArguments components hasTrailing)
                (UriArgumentsNames components hasTrailing) m st"
  from Cons.IH [of ?st1] obtain calls where
    c: "invoked (snd (VisitBlocks ext resource uri hasTrailing components ms ?st1)) =
          invoked (snd ?st1) @ calls"
       "map call_method calls = filter (HasHandler resource) ms"
    by blast
  have step: "VisitBlocks ext resource uri hasTrailing components (m # ms) st =
              VisitBlocks ext resource uri hasTrailing components ms ?st1"
    by (simp add: VisitBlocks_def)
  show ?case
  proof (cases "HasHandler resource m")
    case True
    with c step VisitMethod_invoked [of ext resource "PathOf ext uri hasTrailing" uri
        "UriArguments components hasTrailing" "UriArgumentsNames components hasTrailing" m st]
    have "invoked (snd (VisitBlocks ext resource uri hasTrailing components (m # ms) st)) =
            invoked (snd st) @
              (DocumentationCall m (UriArguments components hasTrailing) uri # calls)
          \<and> map call_method
                (DocumentationCall m (UriArguments components hasTrailing) uri # calls) =
              filter (HasHandler resource) (m # ms)"
      by simp
    then show ?thesis by blast
  next
    case False
    with c step VisitMethod_invoked [of ext resource "PathOf ext uri hasTrailing" uri
        "UriArguments components hasTrailing" "UriArgumentsNames components hasTrailing" m st]
    have "invoked (snd (VisitBlocks ext resource uri hasTrailing components (m # ms) st)) =
            invoked (snd st) @ calls
          \<and> map call_method calls = filter (HasHandler resource) (m # ms)"
      by simp
    then show ?thesis by blast
  qed
qed

text \<open>
  C5. In a block of \<^verbatim>\<open>OpenApiVisitor::Visit\<close> whose handler raises
  \<^verbatim>\<open>OrthancException\<close> or \<^verbatim>\<open>boost::bad_lexical_cast\<close>, or whose documentation raises
  when it is formatted, the exception is caught: the probe is counted, the path map and the
  count of successes are left as they were, and a warning with the method and the path is
  logged. A visit of a path that is not yet a key runs the handler of every method the
  resource has, once each and in the order of the blocks, and answers true, so that the
  traversal goes on with the resources that follow.
\<close>

theorem probe_failure_contained:
  "(HasHandler resource m
      \<and> Resource_Handle resource (DocumentationCall m uriArguments uri) s = (handled, s')
      \<and> (handled = Inl e \<or> (handled = Inr (Some d) \<and> FormatOpenApi ext d names = Inl e)) \<longrightarrow>
      VisitMethod ext resource path uri uriArguments names m (v, s) =
        (v\<lparr>totalPathsCount := totalPathsCount v + 1\<rparr>,
         s'\<lparr>logged := logged s' @ [Warning_Ignoring m path]\<rparr>))
   \<and> (\<not> isMember (PathOf ext uri hasTrailing) (paths v) \<longrightarrow>
      (\<exists>st calls.
         OpenApiVisitor_Visit ext resource uri hasTrailing components trailing (v, s) =
           (Inr True, st)
         \<and> invoked (snd st) = invoked s @ calls
         \<and> map call_method calls = filter (HasHandler resource) method_order
         \<and> VisitAll (OpenApiVisitor_Visit ext)
             ((resource, uri, hasTrailing, components) # rest) (v, s) =
           VisitAll (OpenApiVisitor_Visit ext) rest st))"
proof (intro conjI impI)
  assume a: "HasHandler resource m
      \<and> Resource_Handle resource (DocumentationCall m uriArguments uri) s = (handled, s')
      \<and> (handled = Inl e \<or> (handled = Inr (Some d) \<and> FormatOpenApi ext d names = Inl e))"
  then have "TryDocumentation ext names handled = None"
    by (cases e) (auto simp add: TryDocumentation_def)
  with a show "VisitMethod ext resource path uri uriArguments names m (v, s) =
        (v\<lparr>totalPathsCount := totalPathsCount v + 1\<rparr>,
         s'\<lparr>logged := logged s' @ [Warning_Ignoring m path]\<rparr>)"
    by (simp add: VisitMethod_failure)
next
  assume fresh: "\<not> isMember (PathOf ext uri hasTrailing) (paths v)"
  show "\<exists>st calls.
         OpenApiVisitor_Visit ext resource uri hasTrailing components trailing (v, s) =
           (Inr True, st)
         \<and> invoked (snd st) = invoked s @ calls
         \<and> map call_method calls = filter (HasHandler resource) method_order
         \<and> VisitAll (OpenApiVisitor_Visit ext)
             ((resource, uri, hasTrailing, components) # rest) (v, s) =
           VisitAll (OpenApiVisitor_Visit ext) rest st"
    using Visit_fresh [of ext uri hasTrailing "(v, s)" resource components] fresh
      VisitBlocks_invoked [of ext resource uri hasTrailing components method_order "(v, s)"]
    by simp
qed


theorem probe_failure_contained_witness:
  "HasHandler example_resource HttpMethod_Get
   \<and> Resource_Handle example_resource (DocumentationCall HttpMethod_Get [] [''r''])
         example_system =
       (Inl (OrthancException (ErrorCode_Other 0)),
        \<lparr>world = 1, invoked = [DocumentationCall HttpMethod_Get [] [''r'']], logged = []\<rparr>)
   \<and> VisitMethod example_ext example_resource ''/r'' [''r''] [] {} HttpMethod_Get
         (OpenApiVisitor_new, example_system) =
       (\<lparr>paths = JObject [], successPathsCount = 0, totalPathsCount = 1\<rparr>,
        \<lparr>world = 1, invoked = [DocumentationCall HttpMethod_Get [] [''r'']],
          logged = [Warning_Ignoring HttpMethod_Get ''/r'']\<rparr>)
   \<and> \<not> isMember (PathOf example_ext [''r''] False) (paths OpenApiVisitor_new)
   \<and> OpenApiVisitor_Visit example_ext example_resource [''r''] False [] []
         (OpenApiVisitor_new, example_system) =
       (Inr True,
        \<lparr>paths = JObject [(''/r'', JObject [(''post'', JString ''summary'')])],
          successPathsCount = 1, totalPathsCount = 2\<rparr>,
        \<lparr>world = 2,
          invoked = [DocumentationCall HttpMethod_Get [] [''r''],
                     DocumentationCall HttpMethod_Post [] [''r'']],
          logged = [Warning_Ignoring HttpMethod_Get ''/r'']\<rparr>)"
  using probe_failure_contained
    [where resource = example_resource and m = HttpMethod_Get and uriArguments = "[]"
       and uri = "[''r'']" and s = example_system
       and handled = "Inl (OrthancException (ErrorCode_Other 0))"
       and s' = "\<lparr>world = 1, invoked = [DocumentationCall HttpMethod_Get [] [''r'']],
                   logged = []\<rparr>"
       and e = "OrthancException (ErrorCode_Other 0)" and ext = example_ext and names = "{}"
       and path = "''/r''" and v = OpenApiVisitor_new and hasTrailing = False
       and components = "[]" and trailing = "[]" and rest = "[]"]
  by (simp add: example_defs visitor_defs)

subsection \<open>A pass that runs to its end\<close>

lemma set_update_subset: "set (AList.update k v al) \<subseteq> insert (k, v) (set al)"
  by (induction al) auto





lemma length_DryRun: "length (DryRun ext ps w) = length ps"
  by (induction ps arbitrary: w) (auto split: prod.splits)




lemma Visit_unfold:
  "OpenApiVisitor_Visit ext resource uri hasTrailing components trailing st =
     (if isMember (PathOf ext uri hasTrailing) (paths (fst st))
      then (Inl (OrthancException ErrorCode_InternalError), st)
      else (Inr True, VisitBlocks ext resource uri hasTrailing components method_order st))"
  by (simp add: Visit_fresh Visit_duplicate)


lemma Generate_ended:
  assumes "ExploreAllResources (OpenApiVisitor_Visit ext) [] [] trie (OpenApiVisitor_new, sys) =
             (None, (visitor, s))"
  shows "GenerateOpenApiDocumentation ext trie sys =
           (Inr (JObject [(''info'', JObject []), (''openapi'', JString ''3.0.0''),
                          (''servers'', JArray []), (''paths'', paths visitor)]),
            s\<lparr>logged := logged s @
               [Warning_Coverage (successPathsCount visitor) (totalPathsCount visitor)
                  (RoundedCoverage ext (successPathsCount visitor)
                     (max (totalPathsCount visitor) 1))]\<rparr>)"
proof (cases "totalPathsCount visitor = 0")
  case True
  with assms show ?thesis by (simp add: GenerateOpenApiDocumentation_def Let_def)
next
  case False
  then have "max (totalPathsCount visitor) 1 = totalPathsCount visitor" by simp
  with assms False show ?thesis by (simp add: GenerateOpenApiDocumentation_def Let_def)
qed

lemma Generate_raised:
  assumes "ExploreAllResources (OpenApiVisitor_Visit ext) [] [] trie (OpenApiVisitor_new, sys) =
             (Some e, (visitor, s))"
  shows "GenerateOpenApiDocumentation ext trie sys = (Inl e, s)"
  using assms by (simp add: GenerateOpenApiDocumentation_def)




subsection \<open>The shape of the path map\<close>

lemma PathMap_VisitingMap:
  assumes "PathMap ext visits pathMap" and "\<not> isMember path pathMap"
  shows "VisitingMap ext visits resource path pathMap"
proof -
  from assms(1) obtain entries where p: "pathMap = JObject entries"
    by (cases pathMap) (simp_all add: PathMap_def)
  from assms(2) p have "map_of entries path = None" by simp
  then have "path \<notin> fst ` set entries" by (simp add: map_of_eq_None_iff)
  with assms(1) p show ?thesis
    by (force simp add: PathMap_def VisitingMap_def)
qed

lemma VisitingMap_PathMap:
  assumes "VisitingMap ext visits resource (PathOf ext uri hasTrailing) pathMap"
  shows "PathMap ext (insert (resource, uri, hasTrailing, components) visits) pathMap"
proof -
  from assms obtain entries where p: "pathMap = JObject entries"
    by (cases pathMap) (simp_all add: VisitingMap_def)
  have k: "KeyOf ext (resource, uri, hasTrailing, components) = PathOf ext uri hasTrailing"
    by (simp add: KeyOf_def)
  show ?thesis
    unfolding PathMap_def p
  proof (simp, intro ballI)
    fix x
    assume x: "x \<in> set entries"
    obtain key entry where ke: "x = (key, entry)" by (cases x)
    from assms p x ke
    have c: "if key = PathOf ext uri hasTrailing then MethodEntry resource entry
             else (\<exists>visit \<in> visits. key = KeyOf ext visit \<and> MethodEntry (fst visit) entry)"
      by (auto simp add: VisitingMap_def)
    show "case x of (key, entry) \<Rightarrow>
            key = KeyOf ext (resource, uri, hasTrailing, components) \<and> MethodEntry resource entry
            \<or> (\<exists>visit \<in> visits. key = KeyOf ext visit \<and> MethodEntry (fst visit) entry)"
      using c ke k by (cases "key = PathOf ext uri hasTrailing") auto
  qed
qed

lemma MethodEntry_assign:
  assumes "HasHandler resource m"
    and "entry = JNull \<or> MethodEntry resource entry"
  shows "MethodEntry resource (Json_assign (method_key m) fragment entry)"
proof -
  have mo: "m \<in> set method_order" by (cases m) (simp_all add: method_order_def)
  from assms(2) show ?thesis
  proof
    assume "entry = JNull"
    with assms(1) mo show ?thesis by (auto simp add: MethodEntry_def)
  next
    assume me: "MethodEntry resource entry"
    then obtain fragments where e: "entry = JObject fragments"
      by (cases entry) (simp_all add: MethodEntry_def)
    from me e assms(1) mo set_update_subset [of "method_key m" fragment fragments]
    show ?thesis by (auto simp add: MethodEntry_def)
  qed
qed

lemma VisitingMap_member:
  assumes "VisitingMap ext visits resource path pathMap"
  shows "Json_member path pathMap = JNull \<or> MethodEntry resource (Json_member path pathMap)"
proof -
  from assms obtain entries where p: "pathMap = JObject entries"
    by (cases pathMap) (simp_all add: VisitingMap_def)
  show ?thesis
  proof (cases "map_of entries path")
    case None
    with p show ?thesis by simp
  next
    case (Some entry)
    then have "(path, entry) \<in> set entries" by (rule map_of_SomeD)
    with assms p have "MethodEntry resource entry" by (auto simp add: VisitingMap_def)
    with Some p show ?thesis by simp
  qed
qed

lemma VisitingMap_assign:
  assumes "VisitingMap ext visits resource path pathMap"
    and "MethodEntry resource entry"
  shows "VisitingMap ext visits resource path (Json_assign path entry pathMap)"
proof -
  from assms(1) obtain entries where p: "pathMap = JObject entries"
    by (cases pathMap) (simp_all add: VisitingMap_def)
  show ?thesis
    unfolding VisitingMap_def p
  proof (simp, intro ballI)
    fix x
    assume "x \<in> set (AList.update path entry entries)"
    with set_update_subset [of path entry entries]
    have "x = (path, entry) \<or> x \<in> set entries" by auto
    then show "case x of (key, e) \<Rightarrow>
                 (key = path \<longrightarrow> MethodEntry resource e) \<and>
                 (key \<noteq> path \<longrightarrow>
                    (\<exists>visit \<in> visits. key = KeyOf ext visit \<and> MethodEntry (fst visit) e))"
    proof
      assume "x = (path, entry)"
      with assms(2) show ?thesis by simp
    next
      assume "x \<in> set entries"
      with assms(1) p show ?thesis by (auto simp add: VisitingMap_def split: if_splits)
    qed
  qed
qed

lemma VisitMethod_VisitingMap:
  assumes "VisitingMap ext visits resource path (paths (fst st))"
  shows "VisitingMap ext visits resource path
           (paths (fst (VisitMethod ext resource path uri uriArguments names m st)))"
proof (cases st)
  case (Pair v s)
  show ?thesis
  proof (cases rule: VisitMethod_cases [of resource m ext path uri uriArguments names v s])
    case absent
    with assms Pair show ?thesis by simp
  next
    case (failure handled s')
    with assms Pair show ?thesis by simp
  next
    case (success handled s' fragment)
    from assms Pair have vm: "VisitingMap ext visits resource path (paths v)" by simp
    have "MethodEntry resource
            (Json_assign (method_key m) fragment (Json_member path (paths v)))"
      by (rule MethodEntry_assign [OF success(1) VisitingMap_member [OF vm]])
    from VisitingMap_assign [OF vm this] success(4) Pair show ?thesis by simp
  qed
qed

lemma VisitBlocks_VisitingMap:
  "VisitingMap ext visits resource (PathOf ext uri hasTrailing) (paths (fst st)) \<Longrightarrow>
   VisitingMap ext visits resource (PathOf ext uri hasTrailing)
     (paths (fst (VisitBlocks ext resource uri hasTrailing components ms st)))"
proof (induction ms arbitrary: st)
  case Nil
  then show ?case by (simp add: VisitBlocks_def)
next
  case (Cons m ms)
  let ?st1 = "VisitMethod ext resource (PathOf ext uri hasTrailing) uri
                (UriArguments components hasTrailing)
                (UriArgumentsNames components hasTrailing) m st"
  have step: "VisitBlocks ext resource uri hasTrailing components (m # ms) st =
              VisitBlocks ext resource uri hasTrailing components ms ?st1"
    by (simp add: VisitBlocks_def)
  show ?case
    unfolding step
    by (rule Cons.IH) (rule VisitMethod_VisitingMap [OF Cons.prems])
qed

lemma VisitAll_PathMap:
  "VisitAll (OpenApiVisitor_Visit ext) visits st = (None, st') \<Longrightarrow>
   PathMap ext seen (paths (fst st)) \<Longrightarrow>
   PathMap ext (seen \<union> set visits) (paths (fst st'))"
proof (induction visits arbitrary: st seen)
  case Nil
  then show ?case by simp
next
  case (Cons c visits)
  obtain resource uri hasTrailing components
    where c: "c = (resource, uri, hasTrailing, components)"
    by (cases c)
  let ?st1 = "VisitBlocks ext resource uri hasTrailing components method_order st"
  have fresh: "\<not> isMember (PathOf ext uri hasTrailing) (paths (fst st))"
  proof
    assume m: "isMember (PathOf ext uri hasTrailing) (paths (fst st))"
    from Cons.prems(1) c Visit_duplicate [OF m, of resource components "[]"]
    show False by simp
  qed
  from Cons.prems(1) c Visit_fresh [OF fresh, of resource components "[]"]
  have rest: "VisitAll (OpenApiVisitor_Visit ext) visits ?st1 = (None, st')" by simp
  have "VisitingMap ext seen resource (PathOf ext uri hasTrailing) (paths (fst ?st1))"
    by (rule VisitBlocks_VisitingMap) (rule PathMap_VisitingMap [OF Cons.prems(2) fresh])
  then have "PathMap ext (insert c seen) (paths (fst ?st1))"
    unfolding c by (rule VisitingMap_PathMap)
  from Cons.IH [OF rest this] show ?case by simp
qed


text \<open>
  C7, as amended. When the documentation pass runs to its end,
  \<^verbatim>\<open>GenerateOpenApiDocumentation\<close> produces the object with the four fields \<^verbatim>\<open>info\<close>
  (an empty object), \<^verbatim>\<open>openapi\<close> (the string 3.0.0), \<^verbatim>\<open>servers\<close> (an empty array) and
  \<^verbatim>\<open>paths\<close> (the map of the visitor). Every key of that map is the flattened URI of a
  visited resource, followed by \<^verbatim>\<open>/{...}\<close> exactly when the resource has a trailing
  wildcard, and the entry under it is an object keyed by the names get, post, delete, put of
  methods that the resource handles. When the traversal raises, the function produces no
  object: the exception leaves it.
\<close>

theorem openapi_document_shape:
  "(ExploreAllResources (OpenApiVisitor_Visit ext) [] [] trie (OpenApiVisitor_new, sys) =
        (None, (visitor, s)) \<longrightarrow>
      fst (GenerateOpenApiDocumentation ext trie sys) =
        Inr (JObject [(''info'', JObject []), (''openapi'', JString ''3.0.0''),
                      (''servers'', JArray []), (''paths'', paths visitor)])
      \<and> PathMap ext (set (Resources [] [] trie)) (paths visitor))
   \<and> (ExploreAllResources (OpenApiVisitor_Visit ext) [] [] trie (OpenApiVisitor_new, sys) =
        (Some e, (visitor, s)) \<longrightarrow>
      fst (GenerateOpenApiDocumentation ext trie sys) = Inl e)
   \<and> KeyOf ext (resource, uri, hasTrailing, components) =
       FlattenUri ext uri @ (if hasTrailing then ''/{...}'' else [])
   \<and> map method_key method_order = [''get'', ''post'', ''delete'', ''put'']"
proof (intro conjI impI)
  assume e: "ExploreAllResources (OpenApiVisitor_Visit ext) [] [] trie
               (OpenApiVisitor_new, sys) = (None, (visitor, s))"
  from Generate_ended [OF e]
  show "fst (GenerateOpenApiDocumentation ext trie sys) =
        Inr (JObject [(''info'', JObject []), (''openapi'', JString ''3.0.0''),
                      (''servers'', JArray []), (''paths'', paths visitor)])"
    by simp
  have start: "PathMap ext {} (paths (fst (OpenApiVisitor_new, sys)))"
    by (simp add: PathMap_def OpenApiVisitor_new_def)
  from e have "VisitAll (OpenApiVisitor_Visit ext) (Resources [] [] trie)
                 (OpenApiVisitor_new, sys) = (None, (visitor, s))"
    by (simp add: Explore_VisitAll)
  from VisitAll_PathMap [OF this start]
  show "PathMap ext (set (Resources [] [] trie)) (paths visitor)" by simp
next
  assume "ExploreAllResources (OpenApiVisitor_Visit ext) [] [] trie
            (OpenApiVisitor_new, sys) = (Some e, (visitor, s))"
  from Generate_raised [OF this]
  show "fst (GenerateOpenApiDocumentation ext trie sys) = Inl e" by simp
next
  show "KeyOf ext (resource, uri, hasTrailing, components) =
       FlattenUri ext uri @ (if hasTrailing then ''/{...}'' else [])"
    by (simp add: KeyOf_def PathOf_def)
  show "map method_key method_order = [''get'', ''post'', ''delete'', ''put'']"
    by (simp add: method_order_def)
qed

theorem openapi_document_shape_counterexample:
  "fst (GenerateOpenApiDocumentation example_ext clashing_trie example_system) =
     Inl (OrthancException ErrorCode_InternalError)"
  by (simp add: GenerateOpenApiDocumentation_def example_defs visitor_defs)

theorem openapi_document_shape_witness:
  "ExploreAllResources (OpenApiVisitor_Visit example_ext) [] [] example_trie
       (OpenApiVisitor_new, example_system) =
     (None,
      \<lparr>paths = JObject [(''/r'', JObject [(''post'', JString ''summary'')]),
                         (''/s'', JObject [(''get'', JString ''summary'')])],
        successPathsCount = 2, totalPathsCount = 3\<rparr>,
      \<lparr>world = 3,
        invoked = [DocumentationCall HttpMethod_Get [] [''r''],
                   DocumentationCall HttpMethod_Post [] [''r''],
                   DocumentationCall HttpMethod_Get [] [''s'']],
        logged = [Warning_Ignoring HttpMethod_Get ''/r'']\<rparr>)
   \<and> fst (GenerateOpenApiDocumentation example_ext example_trie example_system) =
       Inr (JObject
         [(''info'', JObject []), (''openapi'', JString ''3.0.0''), (''servers'', JArray []),
          (''paths'', JObject [(''/r'', JObject [(''post'', JString ''summary'')]),
                               (''/s'', JObject [(''get'', JString ''summary'')])])])
   \<and> PathMap example_ext (set (Resources [] [] example_trie))
         (JObject [(''/r'', JObject [(''post'', JString ''summary'')]),
                   (''/s'', JObject [(''get'', JString ''summary'')])])
   \<and> KeyOf example_ext (only_get, [''a''], True, []) = ''/a/{...}''
   \<and> ExploreAllResources (OpenApiVisitor_Visit example_ext) [] [] clashing_trie
       (OpenApiVisitor_new, example_system) =
     (Some (OrthancException ErrorCode_InternalError),
      \<lparr>paths = JObject [(''/a/{...}'', JObject [(''get'', JString ''summary'')])],
        successPathsCount = 1, totalPathsCount = 1\<rparr>,
      \<lparr>world = 1,
        invoked = [DocumentationCall HttpMethod_Get [(''...'', [])] [''a'']],
        logged = []\<rparr>)"
  using
    openapi_document_shape
      [where ext = example_ext and trie = example_trie and sys = example_system
         and visitor = "\<lparr>paths = JObject [(''/r'', JObject [(''post'', JString ''summary'')]),
                                          (''/s'', JObject [(''get'', JString ''summary'')])],
                          successPathsCount = 2, totalPathsCount = 3\<rparr>"
         and s = "\<lparr>world = 3,
                    invoked = [DocumentationCall HttpMethod_Get [] [''r''],
                               DocumentationCall HttpMethod_Post [] [''r''],
                               DocumentationCall HttpMethod_Get [] [''s'']],
                    logged = [Warning_Ignoring HttpMethod_Get ''/r'']\<rparr>"
         and resource = only_get and uri = "[''a'']" and hasTrailing = True
         and components = "[]"]
    openapi_document_shape
      [where ext = example_ext and trie = clashing_trie and sys = example_system
         and e = "OrthancException ErrorCode_InternalError"
         and visitor = "\<lparr>paths = JObject [(''/a/{...}'', JObject [(''get'', JString ''summary'')])],
                          successPathsCount = 1, totalPathsCount = 1\<rparr>"
         and s = "\<lparr>world = 1,
                    invoked = [DocumentationCall HttpMethod_Get [(''...'', [])] [''a'']],
                    logged = []\<rparr>"
         and resource = only_get and uri = "[''a'']" and hasTrailing = True
         and components = "[]"]
  by (simp add: GenerateOpenApiDocumentation_def KeyOf_def
        example_defs visitor_defs)

subsection \<open>Two passes over the same trie\<close>

lemma call_origin_DocumentationCall [simp]:
  "call_origin (DocumentationCall m uriArguments uri) = RequestOrigin_Documentation"
  by (cases m) simp_all

lemma VisitMethod_deterministic:
  assumes "DeterministicResource resource"
  shows "fst (VisitMethod ext resource path uri uriArguments names m (v, s1)) =
         fst (VisitMethod ext resource path uri uriArguments names m (v, s2))"
proof (cases "resource m")
  case None
  then have "\<not> HasHandler resource m" by (simp add: HasHandler_def)
  then show ?thesis by (simp add: VisitMethod_absent)
next
  case (Some h)
  let ?call = "DocumentationCall m uriArguments uri"
  from assms Some have "DeterministicInDocumentation h"
    by (simp add: DeterministicResource_def)
  then have same: "fst (h ?call (world s1)) = fst (h ?call (world s2))"
    by (simp add: DeterministicInDocumentation_def)
  from Some have hh: "HasHandler resource m" by (simp add: HasHandler_def)
  note r1 = Resource_Handle_result [of resource m h uriArguments uri s1, OF Some]
  note r2 = Resource_Handle_result [of resource m h uriArguments uri s2, OF Some]
  show ?thesis
  proof (cases "TryDocumentation ext names (fst (h ?call (world s1)))")
    case None
    from VisitMethod_failure [OF hh r1 None] VisitMethod_failure [OF hh r2 None [unfolded same]]
    show ?thesis by simp
  next
    case (Some fragment)
    from VisitMethod_success [OF hh r1 Some] VisitMethod_success [OF hh r2 Some [unfolded same]]
    show ?thesis by simp
  qed
qed

lemma VisitBlocks_deterministic:
  assumes "DeterministicResource resource"
  shows "fst (VisitBlocks ext resource uri hasTrailing components ms (v, s1)) =
         fst (VisitBlocks ext resource uri hasTrailing components ms (v, s2))"
proof (induction ms arbitrary: v s1 s2)
  case Nil
  then show ?case by (simp add: VisitBlocks_def)
next
  case (Cons m ms)
  let ?vm = "VisitMethod ext resource (PathOf ext uri hasTrailing) uri
               (UriArguments components hasTrailing)
               (UriArgumentsNames components hasTrailing) m"
  obtain v1 t1 where a: "?vm (v, s1) = (v1, t1)" by (cases "?vm (v, s1)")
  obtain v2 t2 where b: "?vm (v, s2) = (v2, t2)" by (cases "?vm (v, s2)")
  from VisitMethod_deterministic [OF assms, of ext "PathOf ext uri hasTrailing" uri
         "UriArguments components hasTrailing" "UriArgumentsNames components hasTrailing"
         m v s1 s2] a b
  have "v1 = v2" by simp
  with a b Cons.IH [of v1 t1 t2] show ?case by (simp add: VisitBlocks_def)
qed

lemma VisitAll_deterministic:
  "\<forall>visit \<in> set visits. DeterministicResource (fst visit) \<Longrightarrow>
   fst (VisitAll (OpenApiVisitor_Visit ext) visits (v, s1)) =
     fst (VisitAll (OpenApiVisitor_Visit ext) visits (v, s2))
   \<and> fst (snd (VisitAll (OpenApiVisitor_Visit ext) visits (v, s1))) =
     fst (snd (VisitAll (OpenApiVisitor_Visit ext) visits (v, s2)))"
proof (induction visits arbitrary: v s1 s2)
  case Nil
  then show ?case by simp
next
  case (Cons c visits)
  obtain resource uri hasTrailing components
    where c: "c = (resource, uri, hasTrailing, components)"
    by (cases c)
  from Cons.prems c have d: "DeterministicResource resource" by simp
  from Cons.prems have rest: "\<forall>visit \<in> set visits. DeterministicResource (fst visit)" by simp
  show ?case
  proof (cases "isMember (PathOf ext uri hasTrailing) (paths v)")
    case True
    then show ?thesis by (simp add: c Visit_duplicate)
  next
    case False
    let ?vb = "VisitBlocks ext resource uri hasTrailing components method_order"
    obtain v1 t1 where a: "?vb (v, s1) = (v1, t1)" by (cases "?vb (v, s1)")
    obtain v2 t2 where b: "?vb (v, s2) = (v2, t2)" by (cases "?vb (v, s2)")
    from VisitBlocks_deterministic [OF d, of ext uri hasTrailing components method_order v s1 s2]
      a b
    have "v1 = v2" by simp
    with a b False Cons.IH [OF rest, of v1 t1 t2] show ?thesis
      by (simp add: c Visit_fresh)
  qed
qed

text \<open>
  C8. When every handler of the trie is deterministic in documentation mode, a second call
  of \<^verbatim>\<open>GenerateOpenApiDocumentation\<close>, made in the state of the server that the first call
  has left, has the outcome of the first one: the same document, with the same path map, or
  the same exception.
\<close>

theorem documentation_idempotent:
  "DeterministicHandlers trie \<Longrightarrow>
   fst (GenerateOpenApiDocumentation ext trie
          (snd (GenerateOpenApiDocumentation ext trie sys))) =
     fst (GenerateOpenApiDocumentation ext trie sys)
   \<and> (\<forall>first. fst (GenerateOpenApiDocumentation ext trie sys) = Inr first \<longrightarrow>
        (\<exists>second. fst (GenerateOpenApiDocumentation ext trie
                         (snd (GenerateOpenApiDocumentation ext trie sys))) = Inr second
           \<and> Json_member ''paths'' second = Json_member ''paths'' first))"
proof -
  assume "DeterministicHandlers trie"
  then have d: "\<forall>visit \<in> set (Resources [] [] trie). DeterministicResource (fst visit)"
    by (simp add: DeterministicHandlers_def)
  let ?sys' = "snd (GenerateOpenApiDocumentation ext trie sys)"
  let ?e = "\<lambda>s. ExploreAllResources (OpenApiVisitor_Visit ext) [] [] trie (OpenApiVisitor_new, s)"
  from VisitAll_deterministic [OF d, of ext OpenApiVisitor_new ?sys' sys]
  have same: "fst (?e ?sys') = fst (?e sys)" "fst (snd (?e ?sys')) = fst (snd (?e sys))"
    by (simp_all add: Explore_VisitAll)
  obtain r1 v1 t1 where e1: "?e sys = (r1, (v1, t1))" by (cases "?e sys") auto
  obtain r2 v2 t2 where e2: "?e ?sys' = (r2, (v2, t2))" by (cases "?e ?sys'") auto
  from same e1 e2 have eq: "r2 = r1" "v2 = v1" by simp_all
  have g: "fst (GenerateOpenApiDocumentation ext trie ?sys') =
           fst (GenerateOpenApiDocumentation ext trie sys)"
    using e1 e2 eq
    by (cases r1)
      (simp_all add: GenerateOpenApiDocumentation_def Let_def del: ExploreAllResources.simps)
  then show ?thesis by simp
qed


theorem documentation_idempotent_witness:
  "DeterministicHandlers example_trie
   \<and> world (snd (GenerateOpenApiDocumentation example_ext example_trie example_system)) = 3
   \<and> world example_system = 0
   \<and> fst (GenerateOpenApiDocumentation example_ext example_trie
            (snd (GenerateOpenApiDocumentation example_ext example_trie example_system))) =
       Inr (JObject
         [(''info'', JObject []), (''openapi'', JString ''3.0.0''), (''servers'', JArray []),
          (''paths'', JObject [(''/r'', JObject [(''post'', JString ''summary'')]),
                               (''/s'', JObject [(''get'', JString ''summary'')])])])"
proof -
  have d: "DeterministicHandlers example_trie"
    by (auto simp add: DeterministicHandlers_def DeterministicResource_def
          DeterministicInDocumentation_def IsEmpty_def example_defs split: if_splits)
  have g: "GenerateOpenApiDocumentation example_ext example_trie example_system =
       (Inr (JObject
         [(''info'', JObject []), (''openapi'', JString ''3.0.0''), (''servers'', JArray []),
          (''paths'', JObject [(''/r'', JObject [(''post'', JString ''summary'')]),
                               (''/s'', JObject [(''get'', JString ''summary'')])])]),
        \<lparr>world = 3,
          invoked = [DocumentationCall HttpMethod_Get [] [''r''],
                     DocumentationCall HttpMethod_Post [] [''r''],
                     DocumentationCall HttpMethod_Get [] [''s'']],
          logged = [Warning_Ignoring HttpMethod_Get ''/r'', Warning_Coverage 2 3 67]\<rparr>)"
    by (simp add: GenerateOpenApiDocumentation_def example_defs visitor_defs)
  from documentation_idempotent [OF d, of example_ext example_system] d g
  show ?thesis by (simp add: example_system_def)
qed

subsection \<open>The visitor of live requests\<close>

lemma call_method_LiveCall [simp]:
  "call_method (LiveCall visitor out uri components trailing) = visitor_method visitor"
  by (cases visitor; cases "visitor_method visitor") simp_all

lemma Visit_LiveCall:
  "HttpHandlerVisitor_Visit visitor resource uri hasTrailing components trailing s =
     (if HasHandler resource (visitor_method visitor)
      then Handle_return_true resource
             (LiveCall visitor (wrappedOutput s) uri components trailing) s
      else (Inr False, s))"
  by (cases visitor; cases "visitor_method visitor") simp_all

text \<open>
  C4, as amended. The visitor of a live request answers false, without running a handler, when
  the resource has no handler for the method of the request. When it has one, the visitor builds
  the call context of the method, runs the handler once, and answers true when the handler
  returns; when the handler raises, the exception leaves \<^verbatim>\<open>Visit\<close>. So an answer of true
  means that the resource has a handler for the method. Every value of the method is one
  of GET, POST, DELETE, PUT.
\<close>

theorem live_visit_dispatch:
  "(HasHandler resource (visitor_method visitor) \<longrightarrow>
      (\<exists>handled sys.
         Resource_Handle resource (LiveCall visitor (wrappedOutput s) uri components trailing)
           (system s) = (handled, sys)
         \<and> invoked sys =
             invoked (system s) @ [LiveCall visitor (wrappedOutput s) uri components trailing]
         \<and> HttpHandlerVisitor_Visit visitor resource uri hasTrailing components trailing s =
             ((case handled of Inl e \<Rightarrow> Inl e | Inr d \<Rightarrow> Inr True), s\<lparr>system := sys\<rparr>)))
   \<and> (\<not> HasHandler resource (visitor_method visitor) \<longrightarrow>
        HttpHandlerVisitor_Visit visitor resource uri hasTrailing components trailing s =
          (Inr False, s))
   \<and> (fst (HttpHandlerVisitor_Visit visitor resource uri hasTrailing components trailing s) =
        Inr True \<longrightarrow> HasHandler resource (visitor_method visitor))
   \<and> visitor_method visitor \<in> set method_order"
proof (intro conjI impI)
  let ?call = "LiveCall visitor (wrappedOutput s) uri components trailing"
  assume h: "HasHandler resource (visitor_method visitor)"
  obtain handled sys where r: "Resource_Handle resource ?call (system s) = (handled, sys)"
    by (cases "Resource_Handle resource ?call (system s)")
  from h have "HasHandler resource (call_method ?call)" by simp
  from Resource_Handle_invoked [OF this r]
  have i: "invoked sys = invoked (system s) @ [?call]" .
  have v: "HttpHandlerVisitor_Visit visitor resource uri hasTrailing components trailing s =
             ((case handled of Inl e \<Rightarrow> Inl e | Inr d \<Rightarrow> Inr True), s\<lparr>system := sys\<rparr>)"
    using h r by (cases handled) (simp_all add: Visit_LiveCall Handle_return_true_def)
  from r i v show "\<exists>handled sys.
         Resource_Handle resource ?call (system s) = (handled, sys)
         \<and> invoked sys = invoked (system s) @ [?call]
         \<and> HttpHandlerVisitor_Visit visitor resource uri hasTrailing components trailing s =
             ((case handled of Inl e \<Rightarrow> Inl e | Inr d \<Rightarrow> Inr True), s\<lparr>system := sys\<rparr>)"
    by blast
next
  assume "\<not> HasHandler resource (visitor_method visitor)"
  then show "HttpHandlerVisitor_Visit visitor resource uri hasTrailing components trailing s =
          (Inr False, s)"
    by (simp add: Visit_LiveCall)
next
  assume "fst (HttpHandlerVisitor_Visit visitor resource uri hasTrailing components trailing s) =
        Inr True"
  then show "HasHandler resource (visitor_method visitor)"
    by (simp add: Visit_LiveCall split: if_splits)
next
  show "visitor_method visitor \<in> set method_order"
    by (cases "visitor_method visitor") (simp_all add: method_order_def)
qed

lemmas live_defs =
  Handle_return_true_def Resource_Handle_def HasHandler_def IsEmpty_def RestApiOutput_new_def
  example_live_def

theorem live_visit_dispatch_counterexample:
  "HasHandler example_resource HttpMethod_Get
   \<and> HttpHandlerVisitor_Visit
       (HttpHandlerVisitor (RequestOrigin_Other 0) [] [] HttpMethod_Get [] [] [])
       example_resource [''r''] False [] [] example_live =
     (Inl (OrthancException (ErrorCode_Other 0)),
      example_live\<lparr>system :=
        \<lparr>world = 1,
          invoked = [RestApiGetCall (RestApiOutput_new HttpMethod_Get) (RequestOrigin_Other 0)
                       [] [] [] [] [] [''r''] []],
          logged = []\<rparr>\<rparr>)
   \<and> fst (HttpHandlerVisitor_Visit
          (HttpHandlerVisitor (RequestOrigin_Other 0) [] [] HttpMethod_Get [] [] [])
          example_resource [''r''] False [] [] example_live) \<noteq> Inr True"
  by (simp add: live_defs example_defs)

theorem live_visit_dispatch_witness:
  "HasHandler example_resource HttpMethod_Post
   \<and> HttpHandlerVisitor_Visit
       (HttpHandlerVisitor (RequestOrigin_Other 0) ''ip'' ''user'' HttpMethod_Post [] []
          ''body'')
       example_resource [''r''] False [] [] example_live =
     (Inr True,
      example_live\<lparr>system :=
        \<lparr>world = 1,
          invoked = [RestApiPostCall (RestApiOutput_new HttpMethod_Get) (RequestOrigin_Other 0)
                       ''ip'' ''user'' [] [] [] [''r''] ''body''],
          logged = []\<rparr>\<rparr>)
   \<and> \<not> HasHandler example_resource HttpMethod_Put
   \<and> HttpHandlerVisitor_Visit
       (HttpHandlerVisitor (RequestOrigin_Other 0) ''ip'' ''user'' HttpMethod_Put [] []
          ''body'')
       example_resource [''r''] False [] [] example_live = (Inr False, example_live)"
  using live_visit_dispatch
      [where resource = example_resource and s = example_live and uri = "[''r'']"
         and hasTrailing = False and components = "[]" and trailing = "[]"
         and visitor = "HttpHandlerVisitor (RequestOrigin_Other 0) ''ip'' ''user''
                          HttpMethod_Post [] [] ''body''"]
    live_visit_dispatch
      [where resource = example_resource and s = example_live and uri = "[''r'']"
         and hasTrailing = False and components = "[]" and trailing = "[]"
         and visitor = "HttpHandlerVisitor (RequestOrigin_Other 0) ''ip'' ''user''
                          HttpMethod_Put [] [] ''body''"]
  by (simp add: live_defs example_defs)


subsection \<open>RestApi::Handle\<close>

lemma Handle_unfold:
  "Handle ext trie out origin remoteIp username method uri headers getArguments bodyData sys =
     (case HandleLookup ext trie out origin remoteIp username method uri headers getArguments
             bodyData sys of
        (Inl e, s) \<Rightarrow> (Inl e, s)
      | (Inr True, s) \<Rightarrow> (Inr True, s\<lparr>wrappedOutput := Finalize (wrappedOutput s)\<rparr>)
      | (Inr False, s) \<Rightarrow>
          (if GetAcceptedMethods trie uri = {} then (Inr False, s)
           else (Inr True,
                 s\<lparr>httpOutput := SendMethodNotAllowed
                                    (MethodsToString (GetAcceptedMethods trie uri)) (httpOutput s),
                   system := (system s)\<lparr>logged := logged (system s) @
                     [Info_MethodNotAllowed method (FlattenUri ext uri)]\<rparr>\<rparr>)))"
  unfolding Handle_def HandleLookup_def HandleVisitor_def HandleState_def Let_def
  by (rule refl)

text \<open>
  C1. When the lookup with the visitor of live requests reports a match, \<^verbatim>\<open>RestApi::Handle\<close>
  finalizes the wrapped output and returns true. When it reports no match, \<^verbatim>\<open>Handle\<close>
  takes the methods accepted at the URI: it returns false and leaves the state as it is when
  there is none, and otherwise sends the method-not-allowed answer with the string of these
  methods and returns true.
\<close>

theorem Handle_outcomes:
  "(HandleLookup ext trie out origin remoteIp username method uri headers getArguments
      bodyData sys = (Inr True, s) \<longrightarrow>
      Handle ext trie out origin remoteIp username method uri headers getArguments bodyData sys
        = (Inr True, s\<lparr>wrappedOutput := Finalize (wrappedOutput s)\<rparr>)
      \<and> finalized (wrappedOutput (snd (Handle ext trie out origin remoteIp username method uri
                                          headers getArguments bodyData sys))))
   \<and> (HandleLookup ext trie out origin remoteIp username method uri headers getArguments
        bodyData sys = (Inr False, s) \<and> GetAcceptedMethods trie uri = {} \<longrightarrow>
      Handle ext trie out origin remoteIp username method uri headers getArguments bodyData sys
        = (Inr False, s))
   \<and> (HandleLookup ext trie out origin remoteIp username method uri headers getArguments
        bodyData sys = (Inr False, s) \<and> GetAcceptedMethods trie uri \<noteq> {} \<longrightarrow>
      fst (Handle ext trie out origin remoteIp username method uri headers getArguments
             bodyData sys) = Inr True
      \<and> httpOutput (snd (Handle ext trie out origin remoteIp username method uri headers
                            getArguments bodyData sys)) =
          httpOutput s @ [MethodsToString (GetAcceptedMethods trie uri)]
      \<and> wrappedOutput (snd (Handle ext trie out origin remoteIp username method uri headers
                               getArguments bodyData sys)) = wrappedOutput s)"
  by (simp add: Handle_unfold Finalize_def SendMethodNotAllowed_def)


lemmas lookup_defs =
  Handle_def HandleLookup_def HandleVisitor_def HandleState_def LookupResource_def
  GetAcceptedMethods_def AcceptedMethodsCollector_def NegotiateAccept_def canonical_order_def
  MethodsToString_def AddMethod_def SendMethodNotAllowed_def Finalize_def Let_def

theorem Handle_outcomes_witness:
  "HandleLookup example_ext example_trie [] (RequestOrigin_Other 0) [] [] HttpMethod_Get
     [''s''] [] [] [] example_system =
     (Inr True,
      \<lparr>wrappedOutput = RestApiOutput_new HttpMethod_Get, httpOutput = [],
        system = \<lparr>world = 1,
                   invoked = [RestApiGetCall (RestApiOutput_new HttpMethod_Get)
                                (RequestOrigin_Other 0) [] [] [] [] [] [''s''] []],
                   logged = []\<rparr>\<rparr>)
   \<and> Handle example_ext example_trie [] (RequestOrigin_Other 0) [] [] HttpMethod_Get
       [''s''] [] [] [] example_system =
     (Inr True,
      \<lparr>wrappedOutput = \<lparr>output_method = HttpMethod_Get, convertJsonToXml = False,
                          finalized = True\<rparr>,
        httpOutput = [],
        system = \<lparr>world = 1,
                   invoked = [RestApiGetCall (RestApiOutput_new HttpMethod_Get)
                                (RequestOrigin_Other 0) [] [] [] [] [] [''s''] []],
                   logged = []\<rparr>\<rparr>)
   \<and> HandleLookup example_ext example_trie [] (RequestOrigin_Other 0) [] [] HttpMethod_Post
       [''s''] [] [] [] example_system =
     (Inr False,
      \<lparr>wrappedOutput = RestApiOutput_new HttpMethod_Post, httpOutput = [],
        system = example_system\<rparr>)
   \<and> GetAcceptedMethods example_trie [''s''] = {HttpMethod_Get}
   \<and> fst (Handle example_ext example_trie [] (RequestOrigin_Other 0) [] [] HttpMethod_Post
            [''s''] [] [] [] example_system) = Inr True
   \<and> httpOutput (snd (Handle example_ext example_trie [] (RequestOrigin_Other 0) [] []
                         HttpMethod_Post [''s''] [] [] [] example_system)) = [''GET'']
   \<and> HandleLookup example_ext example_trie [] (RequestOrigin_Other 0) [] [] HttpMethod_Post
       [''x''] [] [] [] example_system =
     (Inr False,
      \<lparr>wrappedOutput = RestApiOutput_new HttpMethod_Post, httpOutput = [],
        system = example_system\<rparr>)
   \<and> GetAcceptedMethods example_trie [''x''] = {}
   \<and> Handle example_ext example_trie [] (RequestOrigin_Other 0) [] [] HttpMethod_Post
       [''x''] [] [] [] example_system =
     (Inr False,
      \<lparr>wrappedOutput = RestApiOutput_new HttpMethod_Post, httpOutput = [],
        system = example_system\<rparr>)"
  using
    Handle_outcomes
      [of example_ext example_trie "[]" "RequestOrigin_Other 0" "[]" "[]" HttpMethod_Get
         "[''s'']" "[]" "[]" "[]" example_system
         "\<lparr>wrappedOutput = RestApiOutput_new HttpMethod_Get, httpOutput = [],
                    system = \<lparr>world = 1,
                      invoked = [RestApiGetCall (RestApiOutput_new HttpMethod_Get)
                                   (RequestOrigin_Other 0) [] [] [] [] [] [''s''] []],
                      logged = []\<rparr>\<rparr>"]
    Handle_outcomes
      [of example_ext example_trie "[]" "RequestOrigin_Other 0" "[]" "[]" HttpMethod_Post
         "[''s'']" "[]" "[]" "[]" example_system
         "\<lparr>wrappedOutput = RestApiOutput_new HttpMethod_Post, httpOutput = [],
                    system = example_system\<rparr>"]
    Handle_outcomes
      [of example_ext example_trie "[]" "RequestOrigin_Other 0" "[]" "[]" HttpMethod_Post
         "[''x'']" "[]" "[]" "[]" example_system
         "\<lparr>wrappedOutput = RestApiOutput_new HttpMethod_Post, httpOutput = [],
                    system = example_system\<rparr>"]
  by (simp add: lookup_defs live_defs example_defs)

subsection \<open>The negotiation of the output encoding\<close>

lemma Lookup_wrapped:
  assumes "\<And>resource uri hasTrailing components trailing s.
             wrappedOutput (snd (visit resource uri hasTrailing components trailing s)) =
               wrappedOutput s"
  shows "wrappedOutput (snd (LookupSegments visit uri components segments node s)) =
           wrappedOutput s"
    and "wrappedOutput (snd (LookupChild visit uri components seg rest cs s)) =
           wrappedOutput s"
  using assms
proof (induction visit uri components segments node s and visit uri components seg rest cs s
       rule: LookupSegments_LookupChild.induct)
  case (1 visit uri components h t cs wc s)
  then show ?case by simp
next
  case (2 visit uri components seg rest h t cs wc s)
  note v = "2.prems"
  obtain r1 s1 where p1: "LookupChild visit uri components seg rest cs s = (r1, s1)"
    by (cases "LookupChild visit uri components seg rest cs s")
  from "2.IH"(1) [OF v] p1 have w1: "wrappedOutput s1 = wrappedOutput s" by simp
  show ?case
  proof (cases r1)
    case (Inl e)
    with p1 w1 show ?thesis by simp
  next
    case (Inr b1)
    show ?thesis
    proof (cases b1)
      case True
      with p1 w1 Inr show ?thesis by simp
    next
      case False
      note b1 = False
      from False have b1f: "b1 = False" by simp
      obtain r2 s2 where p2:
        "(case wc of None \<Rightarrow> (Inr False, s1)
          | Some (name, c) \<Rightarrow>
              LookupSegments visit uri (AList.update name seg components) rest c s1) = (r2, s2)"
        by (cases "case wc of None \<Rightarrow> (Inr False, s1)
          | Some (name, c) \<Rightarrow>
              LookupSegments visit uri (AList.update name seg components) rest c s1")
      have w2: "wrappedOutput s2 = wrappedOutput s1"
      proof (cases wc)
        case None
        with p2 show ?thesis by simp
      next
        case (Some nc)
        obtain name c where nc: "nc = (name, c)" by (cases nc)
        from "2.IH"(2) [OF p1 [symmetric] Inr b1f Some nc [symmetric] v] p2 Some nc
        show ?thesis by simp
      qed
      show ?thesis
      proof (cases r2)
        case (Inl e)
        with p1 Inr b1 p2 w1 w2 show ?thesis by simp
      next
        case r2: (Inr b2)
        show ?thesis
        proof (cases b2)
          case True
          with p1 Inr b1 p2 r2 w1 w2 show ?thesis by simp
        next
          case False
          with p1 Inr b1 p2 r2 w1 w2 v [of t uri True components "seg # rest" s2]
          show ?thesis by simp
        qed
      qed
    qed
  qed
next
  case (3 visit uri components seg rest s)
  then show ?case by simp
next
  case (4 visit uri components seg rest key c cs s)
  then show ?case by simp
qed


lemma Visit_wrapped:
  "wrappedOutput (snd (HttpHandlerVisitor_Visit visitor resource uri hasTrailing components
                         trailing s)) = wrappedOutput s"
  by (simp add: Visit_LiveCall Handle_return_true_def split: prod.split sum.split)

lemma Handle_wrapped:
  "convertJsonToXml (wrappedOutput (snd (Handle ext trie out origin remoteIp username method
       uri headers getArguments bodyData sys))) =
   convertJsonToXml (NegotiateAccept ext headers (RestApiOutput_new method))"
proof -
  let ?l = "HandleLookup ext trie out origin remoteIp username method uri headers getArguments
              bodyData sys"
  obtain r s where l: "?l = (r, s)" by (cases ?l)
  have "wrappedOutput (snd ?l) = wrappedOutput (HandleState ext out method headers sys)"
    unfolding HandleLookup_def LookupResource_def
    by (rule Lookup_wrapped(1)) (rule Visit_wrapped)
  with l have w: "wrappedOutput s = NegotiateAccept ext headers (RestApiOutput_new method)"
    by (simp add: HandleState_def)
  show ?thesis
  proof (cases r)
    case (Inl e)
    with l w show ?thesis by (simp add: Handle_unfold)
  next
    case (Inr b)
    with l w show ?thesis by (cases b) (simp_all add: Handle_unfold Finalize_def)
  qed
qed

lemma MIME_differ: "MIME_XML \<noteq> MIME_JSON"
  by (simp add: MIME_XML_def MIME_JSON_def)

lemma fold_AcceptToken:
  "convertJsonToXml (fold AcceptToken tokens out) =
     (case rev (filter (\<lambda>token. token = MIME_XML \<or> token = MIME_JSON) tokens) of
        [] \<Rightarrow> convertJsonToXml out
      | token # earlier \<Rightarrow> token = MIME_XML)"
proof (induction tokens rule: rev_induct)
  case Nil
  then show ?case by simp
next
  case (snoc token tokens)
  then show ?case
    using MIME_differ by (auto simp add: AcceptToken_def SetConvertJsonToXml_def)
qed

lemma Negotiate_LastRecognized:
  "convertJsonToXml (NegotiateAccept ext headers (RestApiOutput_new method)) =
     (if ORTHANC_ENABLE_PUGIXML ext = 1 then
        (case map_of headers ''accept'' of
           None \<Rightarrow> False
         | Some accept \<Rightarrow> LastRecognized (TokenizeString accept (CHR '';'')))
      else False)"
  by (simp add: NegotiateAccept_def fold_AcceptToken LastRecognized_def RestApiOutput_new_def
        split: option.split list.split)

text \<open>
  C3, as amended. In a build with \<^verbatim>\<open>ORTHANC_ENABLE_PUGIXML\<close> equal to 1,
  \<^verbatim>\<open>RestApi::Handle\<close> cuts the value of the \<^verbatim>\<open>accept\<close> header at every semicolon and
  leaves the wrapped output converting JSON to XML exactly when the last token that is one of
  the two media types is the XML one; with no such token or no such header the output stays
  JSON. In any other build the header is not read and the output stays JSON. The value
  \<^verbatim>\<open>application/json;application/xml\<close> gives XML, the value
  \<^verbatim>\<open>application/xml;application/json\<close> gives JSON.
\<close>

theorem accept_negotiation:
  "(ORTHANC_ENABLE_PUGIXML ext = 1 \<longrightarrow>
      convertJsonToXml (wrappedOutput (snd (Handle ext trie out origin remoteIp username method
          uri headers getArguments bodyData sys))) =
        (case map_of headers ''accept'' of
           None \<Rightarrow> False
         | Some accept \<Rightarrow> LastRecognized (TokenizeString accept (CHR '';''))))
   \<and> (ORTHANC_ENABLE_PUGIXML ext \<noteq> 1 \<longrightarrow>
      \<not> convertJsonToXml (wrappedOutput (snd (Handle ext trie out origin remoteIp
          username method uri headers getArguments bodyData sys))))
   \<and> TokenizeString ''application/json;application/xml'' (CHR '';'') =
       [''application/json'', ''application/xml'']
   \<and> LastRecognized [''application/json'', ''application/xml'']
   \<and> TokenizeString ''application/xml;application/json'' (CHR '';'') =
       [''application/xml'', ''application/json'']
   \<and> \<not> LastRecognized [''application/xml'', ''application/json'']"
  by (simp add: Handle_wrapped Negotiate_LastRecognized LastRecognized_def
        MIME_XML_def MIME_JSON_def)

theorem accept_negotiation_counterexample:
  "convertJsonToXml (wrappedOutput (snd (Handle (example_ext\<lparr>ORTHANC_ENABLE_PUGIXML := 0\<rparr>)
      example_trie [] (RequestOrigin_Other 0) [] [] HttpMethod_Get [''s'']
      [(''accept'', ''application/json;application/xml'')] [] [] example_system))) = False"
  by (simp add: lookup_defs live_defs example_defs)

theorem accept_negotiation_witness:
  "ORTHANC_ENABLE_PUGIXML example_ext = 1
   \<and> convertJsonToXml (wrappedOutput (snd (Handle example_ext
        example_trie [] (RequestOrigin_Other 0) [] [] HttpMethod_Get [''s'']
        [(''accept'', ''application/json;application/xml'')] [] [] example_system)))
   \<and> \<not> convertJsonToXml (wrappedOutput (snd (Handle example_ext
        example_trie [] (RequestOrigin_Other 0) [] [] HttpMethod_Get [''s'']
        [(''accept'', ''application/xml;application/json'')] [] [] example_system)))
   \<and> ORTHANC_ENABLE_PUGIXML (example_ext\<lparr>ORTHANC_ENABLE_PUGIXML := 0\<rparr>) \<noteq> 1
   \<and> \<not> convertJsonToXml (wrappedOutput (snd (Handle
        (example_ext\<lparr>ORTHANC_ENABLE_PUGIXML := 0\<rparr>)
        example_trie [] (RequestOrigin_Other 0) [] [] HttpMethod_Get [''s'']
        [(''accept'', ''application/xml'')] [] [] example_system)))"
  using
    accept_negotiation
      [of example_ext example_trie "[]" "RequestOrigin_Other 0" "[]" "[]" HttpMethod_Get
         "[''s'']" "[(''accept'', ''application/json;application/xml'')]" "[]" "[]"
         example_system]
    accept_negotiation
      [of example_ext example_trie "[]" "RequestOrigin_Other 0" "[]" "[]" HttpMethod_Get
         "[''s'']" "[(''accept'', ''application/xml;application/json'')]" "[]" "[]"
         example_system]
    accept_negotiation
      [of "example_ext\<lparr>ORTHANC_ENABLE_PUGIXML := 0\<rparr>" example_trie "[]"
         "RequestOrigin_Other 0" "[]" "[]" HttpMethod_Get
         "[''s'']" "[(''accept'', ''application/xml'')]" "[]" "[]" example_system]
  by (simp add: example_ext_def)

end
